theory Spec2Isabelle
  imports Main
begin

section \<open>Types, locations and errors\<close>

text \<open>
  Modelled from the spec: the type specs of lib/types (section 3, "Type spec"): one of
  the five elementary tags, or an array of an elementary type with its dimension
  bounds. The constructors keep the names of the factory functions the analyzer calls
  (\<open>integerSpec()\<close>, \<open>longSpec()\<close>, ...). Equality is structural, as lodash's
  \<open>_.isEqual\<close> compares them.
\<close>

datatype DataTypeSpec =
    integerSpec
  | longSpec
  | singleSpec
  | doubleSpec
  | stringSpec
  | arraySpec DataTypeSpec "(int \<times> int) list"

text \<open>
  Modelled from the spec: the predicates of lib/types. \<open>isNumeric\<close> and \<open>isString\<close>
  are variadic in the callers (\<open>isNumeric(...t)\<close>, \<open>isString(left, right)\<close>) and hold
  when every argument has the tag.
\<close>

fun isNumericType :: "DataTypeSpec \<Rightarrow> bool" where
  "isNumericType integerSpec = True"
| "isNumericType longSpec = True"
| "isNumericType singleSpec = True"
| "isNumericType doubleSpec = True"
| "isNumericType stringSpec = False"
| "isNumericType (arraySpec e ds) = False"

fun isStringType :: "DataTypeSpec \<Rightarrow> bool" where
  "isStringType stringSpec = True"
| "isStringType t = False"

fun isArray :: "DataTypeSpec \<Rightarrow> bool" where
  "isArray (arraySpec e ds) = True"
| "isArray t = False"

definition isNumeric :: "DataTypeSpec list \<Rightarrow> bool" where
  "isNumeric ts = list_all isNumericType ts"

definition isString :: "DataTypeSpec list \<Rightarrow> bool" where
  "isString ts = list_all isStringType ts"

definition isElementaryType :: "DataTypeSpec \<Rightarrow> bool" where
  "isElementaryType t = (\<not> isArray t)"

definition areMatchingElementaryTypes :: "DataTypeSpec \<Rightarrow> DataTypeSpec \<Rightarrow> bool" where
  "areMatchingElementaryTypes a b =
     ((isNumericType a \<and> isNumericType b) \<or> (isStringType a \<and> isStringType b))"

text \<open>Every AST node carries its source position.\<close>

datatype Loc = Loc nat nat

text \<open>
  A thrown exception is a value. \<open>Error\<close> is a plain JavaScript \<open>new Error(message)\<close>;
  \<open>TypeError\<close> is the engine's own. Modelled from the spec: \<open>AstVisitor.throwError\<close>
  (lib/ast) raises the error kind of the running pass (section 7) at the node's
  position, \<open>SemanticError\<close> in the analyzer and \<open>CodegenError\<close> in the generator. A
  message keeps the fixed part of the source's template string.
\<close>

datatype error =
    Error string
  | TypeError string
  | SemanticError string Loc
  | CodegenError string Loc
  | LexError string

section \<open>Semantic analyzer: numeric coercion\<close>

text \<open>
  \<open>SemanticAnalyzer.coerceNumericTypes\<close>: the sixteen-row table, searched in order with
  \<open>RULES.find\<close>, and the left-to-right loop over the arguments. The function is the
  same in both copies of the analyzer.
\<close>

definition RULES :: "((DataTypeSpec \<times> DataTypeSpec) \<times> DataTypeSpec) list" where
  "RULES =
    [((integerSpec, integerSpec), integerSpec),
     ((integerSpec, longSpec), longSpec),
     ((integerSpec, singleSpec), singleSpec),
     ((integerSpec, doubleSpec), doubleSpec),
     ((longSpec, integerSpec), longSpec),
     ((longSpec, longSpec), longSpec),
     ((longSpec, singleSpec), singleSpec),
     ((longSpec, doubleSpec), doubleSpec),
     ((singleSpec, integerSpec), singleSpec),
     ((singleSpec, longSpec), singleSpec),
     ((singleSpec, singleSpec), singleSpec),
     ((singleSpec, doubleSpec), doubleSpec),
     ((doubleSpec, integerSpec), doubleSpec),
     ((doubleSpec, longSpec), doubleSpec),
     ((doubleSpec, singleSpec), doubleSpec),
     ((doubleSpec, doubleSpec), doubleSpec)]"

definition matchingRule ::
  "DataTypeSpec \<Rightarrow> DataTypeSpec \<Rightarrow> ((DataTypeSpec \<times> DataTypeSpec) \<times> DataTypeSpec) option" where
  "matchingRule resultTypeSpec ti =
     find (\<lambda>r. fst (fst r) = resultTypeSpec \<and> snd (fst r) = ti) RULES"

fun coerceLoop :: "DataTypeSpec \<Rightarrow> DataTypeSpec list \<Rightarrow> error + DataTypeSpec" where
  "coerceLoop resultTypeSpec [] = Inr resultTypeSpec"
| "coerceLoop resultTypeSpec (ti # ts) =
     (case matchingRule resultTypeSpec ti of
        Some r \<Rightarrow> coerceLoop (snd r) ts
      | None \<Rightarrow> Inl (Error ''Unknown numeric type combination''))"

definition coerceNumericTypes :: "DataTypeSpec list \<Rightarrow> error + DataTypeSpec" where
  "coerceNumericTypes t =
     (case t of
        [] \<Rightarrow> Inl (Error ''Missing arguments'')
      | t0 # ts \<Rightarrow>
          if \<not> isNumeric t then Inl (Error ''Expected numeric types'')
          else coerceLoop t0 ts)"

text \<open>
  The claim's ordering Integer < Long < Single < Double, written after the spec's words
  (not taken from the code): the position of a numeric type in that ordering, and the
  wider of two types.
\<close>

fun widthRank :: "DataTypeSpec \<Rightarrow> nat" where
  "widthRank integerSpec = 0"
| "widthRank longSpec = 1"
| "widthRank singleSpec = 2"
| "widthRank doubleSpec = 3"
| "widthRank t = 4"

definition widerType :: "DataTypeSpec \<Rightarrow> DataTypeSpec \<Rightarrow> DataTypeSpec" where
  "widerType a b = (if widthRank a < widthRank b then b else a)"

section \<open>Strings and numbers of the host language\<close>

text \<open>
  A string is a list of characters, one \<open>char\<close> per code unit below 256. The white
  space of a regular expression's \<open>\s\<close> and of \<open>String.prototype.trim\<close> is, in that
  range, tab, line feed, vertical tab, form feed, carriage return, space and the
  no-break space.
\<close>

definition charCode :: "char \<Rightarrow> nat" where
  "charCode c = of_char c"

definition isSpace :: "char \<Rightarrow> bool" where
  "isSpace c = (charCode c \<in> {9, 10, 11, 12, 13, 32, 160})"

definition newline :: char where
  "newline = CHR 0x0A"

definition dquote :: char where
  "dquote = CHR 0x22"

definition trim :: "string \<Rightarrow> string" where
  "trim s = rev (dropWhile isSpace (rev (dropWhile isSpace s)))"

text \<open>
  \<open>String.prototype.toLowerCase\<close> on these code units: the letters A to Z and the
  capital letters of Latin-1 move up by 32.
\<close>

definition toLowerCase :: "string \<Rightarrow> string" where
  "toLowerCase s =
     map (\<lambda>c. if (65 \<le> charCode c \<and> charCode c \<le> 90)
                 \<or> (192 \<le> charCode c \<and> charCode c \<le> 214)
                 \<or> (216 \<le> charCode c \<and> charCode c \<le> 222)
              then char_of (charCode c + 32) else c) s"

text \<open>Decimal rendering of a natural number, as a template string prints an index.\<close>

fun showNatFuel :: "nat \<Rightarrow> nat \<Rightarrow> string" where
  "showNatFuel 0 n = []"
| "showNatFuel (Suc k) n =
     (if n < 10 then [char_of (48 + n)]
      else showNatFuel k (n div 10) @ [char_of (48 + n mod 10)])"

definition showNat :: "nat \<Rightarrow> string" where
  "showNat n = showNatFuel (Suc n) n"

text \<open>
  A JavaScript number is an IEEE double; the model keeps the number type abstract (the
  type variable \<open>'n\<close>) and takes the four operations the runtime applies to a number
  from the engine: \<open>parseFloat\<close>, \<open>isNaN\<close>, the test \<open>n >= 0\<close> and the rendering of
  \<open>n\<close> inside a template string.
\<close>

record 'n NumberOps =
  parseFloat :: "string \<Rightarrow> 'n"
  isNaN :: "'n \<Rightarrow> bool"
  geZero :: "'n \<Rightarrow> bool"
  numberToString :: "'n \<Rightarrow> string"

text \<open>
  An instance for the worked examples: whole numbers in decimal, \<open>None\<close> standing for
  NaN. Its \<open>parseFloat\<close> reads an optional minus sign and the digits that follow.
\<close>

definition isDigit :: "char \<Rightarrow> bool" where
  "isDigit c = (48 \<le> charCode c \<and> charCode c \<le> 57)"

definition digitsValue :: "string \<Rightarrow> nat" where
  "digitsValue ds = foldl (\<lambda>acc c. 10 * acc + (charCode c - 48)) 0 ds"

definition parseWhole :: "string \<Rightarrow> int option" where
  "parseWhole s =
     (case s of
        [] \<Rightarrow> None
      | c # cs \<Rightarrow>
          if c = CHR ''-'' then
            (if takeWhile isDigit cs = [] then None
             else Some (- int (digitsValue (takeWhile isDigit cs))))
          else if takeWhile isDigit s = [] then None
          else Some (int (digitsValue (takeWhile isDigit s))))"

definition showWhole :: "int option \<Rightarrow> string" where
  "showWhole v =
     (case v of
        None \<Rightarrow> ''NaN''
      | Some i \<Rightarrow> if i < 0 then CHR ''-'' # showNat (nat (- i)) else showNat (nat i))"

definition wholeOps :: "int option NumberOps" where
  "wholeOps =
     \<lparr> parseFloat = parseWhole,
       isNaN = (\<lambda>v. v = None),
       geZero = (\<lambda>v. case v of None \<Rightarrow> False | Some i \<Rightarrow> 0 \<le> i),
       numberToString = showWhole \<rparr>"

section \<open>Runtime: the built-in function registry\<close>

text \<open>
  Modelled from the spec: \<open>lookupSymbols\<close> and \<open>lookupSymbol\<close> of lib/symbol-table
  ("names compared case-insensitively"): the entries whose lower-cased name equals the
  lower-cased name looked up, in table order, and the first of them or null. The
  entry's name is read through a selector, as the TypeScript functions are generic in
  the entry type.
\<close>

definition lookupSymbols :: "('a \<Rightarrow> string) \<Rightarrow> 'a list \<Rightarrow> string \<Rightarrow> 'a list" where
  "lookupSymbols nameOf symbolTable n =
     filter (\<lambda>symbol. toLowerCase (nameOf symbol) = toLowerCase n) symbolTable"

definition lookupSymbol :: "('a \<Rightarrow> string) \<Rightarrow> 'a list \<Rightarrow> string \<Rightarrow> 'a option" where
  "lookupSymbol nameOf symbolTable n =
     find (\<lambda>symbol. toLowerCase (nameOf symbol) = toLowerCase n) symbolTable"

text \<open>
  A built-in's entry, without its \<open>run\<close> closure (the lookup never reads it), and the
  table \<open>BUILTIN_FNS\<close> in the order of the source.
\<close>

record BuiltinFn =
  fnName :: string
  paramTypeSpecs :: "DataTypeSpec list"
  returnTypeSpec :: DataTypeSpec

definition BUILTIN_FNS :: "BuiltinFn list" where
  "BUILTIN_FNS =
    [\<lparr>fnName = ''chr$'', paramTypeSpecs = [longSpec], returnTypeSpec = stringSpec\<rparr>,
     \<lparr>fnName = ''instr'', paramTypeSpecs = [stringSpec, stringSpec], returnTypeSpec = integerSpec\<rparr>,
     \<lparr>fnName = ''instr'', paramTypeSpecs = [longSpec, stringSpec, stringSpec],
        returnTypeSpec = integerSpec\<rparr>,
     \<lparr>fnName = ''lbound'', paramTypeSpecs = [arraySpec doubleSpec []], returnTypeSpec = longSpec\<rparr>,
     \<lparr>fnName = ''lbound'', paramTypeSpecs = [arraySpec doubleSpec [], longSpec],
        returnTypeSpec = longSpec\<rparr>,
     \<lparr>fnName = ''lcase$'', paramTypeSpecs = [stringSpec], returnTypeSpec = stringSpec\<rparr>,
     \<lparr>fnName = ''left$'', paramTypeSpecs = [stringSpec, longSpec], returnTypeSpec = stringSpec\<rparr>,
     \<lparr>fnName = ''len'', paramTypeSpecs = [stringSpec], returnTypeSpec = longSpec\<rparr>,
     \<lparr>fnName = ''mid$'', paramTypeSpecs = [stringSpec, longSpec, longSpec],
        returnTypeSpec = stringSpec\<rparr>,
     \<lparr>fnName = ''right$'', paramTypeSpecs = [stringSpec, longSpec], returnTypeSpec = stringSpec\<rparr>,
     \<lparr>fnName = ''str$'', paramTypeSpecs = [doubleSpec], returnTypeSpec = stringSpec\<rparr>,
     \<lparr>fnName = ''val'', paramTypeSpecs = [stringSpec], returnTypeSpec = doubleSpec\<rparr>,
     \<lparr>fnName = ''ubound'', paramTypeSpecs = [arraySpec doubleSpec []], returnTypeSpec = longSpec\<rparr>,
     \<lparr>fnName = ''ubound'', paramTypeSpecs = [arraySpec doubleSpec [], longSpec],
        returnTypeSpec = longSpec\<rparr>,
     \<lparr>fnName = ''ucase$'', paramTypeSpecs = [stringSpec], returnTypeSpec = stringSpec\<rparr>]"

text \<open>
  The predicate given to \<open>find\<close> in \<open>lookupBuiltinFn\<close>: the same number of parameters
  and arguments, and every parameter matching its argument (the index \<open>i\<close> of
  \<open>every\<close> stays in range, the lengths being equal).
\<close>

definition argsMatch :: "DataTypeSpec list \<Rightarrow> DataTypeSpec list \<Rightarrow> bool" where
  "argsMatch params argTypeSpecs =
     (length params = length argTypeSpecs \<and>
      list_all (\<lambda>pa. areMatchingElementaryTypes (fst pa) (snd pa)
                  \<or> (isArray (fst pa) \<and> isArray (snd pa)))
        (zip params argTypeSpecs))"

definition lookupBuiltinFnIn ::
  "BuiltinFn list \<Rightarrow> string \<Rightarrow> DataTypeSpec list \<Rightarrow> bool \<Rightarrow> BuiltinFn option" where
  "lookupBuiltinFnIn table n argTypeSpecs shouldReturnIfArgTypeMismatch =
     (let builtinFnsMatchingName = lookupSymbols fnName table n in
      case find (\<lambda>f. argsMatch (paramTypeSpecs f) argTypeSpecs) builtinFnsMatchingName of
        Some builtinFn \<Rightarrow> Some builtinFn
      | None \<Rightarrow>
          (case builtinFnsMatchingName of
             first # others \<Rightarrow> if shouldReturnIfArgTypeMismatch then Some first else None
           | [] \<Rightarrow> None))"

definition lookupBuiltinFn :: "string \<Rightarrow> DataTypeSpec list \<Rightarrow> bool \<Rightarrow> BuiltinFn option" where
  "lookupBuiltinFn = lookupBuiltinFnIn BUILTIN_FNS"

section \<open>Runtime: print\<close>

text \<open>
  Modelled from the spec: the tagged print arguments of runtime/compiled-code (section
  4.5). A value is a string or a number at run time; \<open>OtherValue\<close> stands for anything
  else, which \<open>print\<close> rejects.
\<close>

datatype 'n PrintValue = StringValue string | NumberValue 'n | OtherValue

datatype 'n PrintArg = SEMICOLON | COMMA | VALUE "'n PrintValue"

definition PRINT_ZONE_LENGTH :: nat where
  "PRINT_ZONE_LENGTH = 14"

definition numPaddingChars :: "string \<Rightarrow> nat" where
  "numPaddingChars ln = PRINT_ZONE_LENGTH - (length ln mod PRINT_ZONE_LENGTH)"

fun isValueArg :: "'n PrintArg \<Rightarrow> bool" where
  "isValueArg (VALUE v) = True"
| "isValueArg a = False"

text \<open>
  The loop of \<open>Runtime.print\<close> over the arguments, \<open>ln\<close> being the variable \<open>line\<close>;
  then the newline test, and the string handed to \<open>platform.print\<close>.
\<close>

fun printLoop :: "'n NumberOps \<Rightarrow> string \<Rightarrow> 'n PrintArg list \<Rightarrow> error + string" where
  "printLoop ops ln [] = Inr ln"
| "printLoop ops ln (SEMICOLON # args) = printLoop ops ln args"
| "printLoop ops ln (COMMA # args) =
     printLoop ops (ln @ replicate (numPaddingChars ln) CHR '' '') args"
| "printLoop ops ln (VALUE (StringValue s) # args) = printLoop ops (ln @ s) args"
| "printLoop ops ln (VALUE (NumberValue n) # args) =
     printLoop ops
       (ln @ (if geZero ops n then '' '' else []) @ numberToString ops n @ '' '') args"
| "printLoop ops ln (VALUE OtherValue # args) = Inl (Error ''Unknown print arg'')"

definition print :: "'n NumberOps \<Rightarrow> 'n PrintArg list \<Rightarrow> error + string" where
  "print ops args =
     (case printLoop ops [] args of
        Inl e \<Rightarrow> Inl e
      | Inr ln \<Rightarrow>
          if length args = 0 \<or> isValueArg (args ! (length args - 1))
          then Inr (ln @ [newline]) else Inr ln)"

text \<open>
  The print rules in the words of the spec, for comparison with the loop: what one
  argument contributes when the line so far has \<open>c\<close> characters, the start of the
  next print zone after column \<open>c\<close>, and the line as the contributions in order.
\<close>

definition nextPrintZone :: "nat \<Rightarrow> nat" where
  "nextPrintZone c = (c div 14 + 1) * 14"

fun contribution :: "'n NumberOps \<Rightarrow> nat \<Rightarrow> 'n PrintArg \<Rightarrow> string" where
  "contribution ops c SEMICOLON = []"
| "contribution ops c COMMA = replicate (nextPrintZone c - c) CHR '' ''"
| "contribution ops c (VALUE (StringValue s)) = s"
| "contribution ops c (VALUE (NumberValue n)) =
     (if geZero ops n then '' '' else []) @ numberToString ops n @ '' ''"
| "contribution ops c (VALUE OtherValue) = []"

fun contributions :: "'n NumberOps \<Rightarrow> nat \<Rightarrow> 'n PrintArg list \<Rightarrow> string" where
  "contributions ops c [] = []"
| "contributions ops c (a # args) =
     contribution ops c a @ contributions ops (c + length (contribution ops c a)) args"

fun wellTypedArg :: "'n PrintArg \<Rightarrow> bool" where
  "wellTypedArg (VALUE OtherValue) = False"
| "wellTypedArg a = True"

section \<open>Runtime: input\<close>

text \<open>
  A token of the moo lexer library, reduced to the fields the repository reads: its
  type, its value (the text after the rule's \<open>value\<close> transform) and the matched text.
\<close>

record Token =
  tokType :: string
  tokValue :: string
  tokText :: string

text \<open>
  \<open>Runtime.inputLexer\<close>: one call of its \<open>next()\<close> on the input that is left. moo
  joins the rules into one alternation in the order written, so the first rule that
  matches at the position wins: \<open>WHITESPACE\<close> \<open>/\s+/\<close>, \<open>QUOTED_STRING\<close>
  \<open>/"[^"]*"/\<close> (typed \<open>STRING\<close>, its value without the quotes), \<open>COMMA\<close>, and
  \<open>STRING\<close> \<open>/[^,\s]+/\<close>. A character that is neither white space nor a comma starts
  a \<open>STRING\<close>, so some rule always matches; at the end of the input \<open>next()\<close>
  returns nothing.
\<close>

definition isFieldChar :: "char \<Rightarrow> bool" where
  "isFieldChar c = (c \<noteq> CHR '','' \<and> \<not> isSpace c)"

definition inputLexerNext :: "string \<Rightarrow> (Token \<times> string) option" where
  "inputLexerNext s =
     (case s of
        [] \<Rightarrow> None
      | c # cs \<Rightarrow>
          if isSpace c then
            Some (\<lparr>tokType = ''WHITESPACE'', tokValue = c # takeWhile isSpace cs,
                   tokText = c # takeWhile isSpace cs\<rparr>,
                  dropWhile isSpace cs)
          else if c = dquote \<and> dquote \<in> set cs then
            Some (\<lparr>tokType = ''STRING'', tokValue = takeWhile (\<lambda>x. x \<noteq> dquote) cs,
                   tokText = c # takeWhile (\<lambda>x. x \<noteq> dquote) cs @ [dquote]\<rparr>,
                  drop 1 (dropWhile (\<lambda>x. x \<noteq> dquote) cs))
          else if c = CHR '','' then
            Some (\<lparr>tokType = ''COMMA'', tokValue = [c], tokText = [c]\<rparr>, cs)
          else
            Some (\<lparr>tokType = ''STRING'', tokValue = c # takeWhile isFieldChar cs,
                   tokText = c # takeWhile isFieldChar cs\<rparr>,
                  dropWhile isFieldChar cs))"

lemma inputLexerNext_shorter:
  "inputLexerNext s = Some (t, rest) \<Longrightarrow> length rest < length s"
  by (auto simp: inputLexerNext_def less_Suc_eq_le length_dropWhile_le
      intro: le_trans [OF diff_le_self length_dropWhile_le]
      split: list.splits if_splits)

text \<open>
  \<open>Runtime.lexInput\<close>: the lexer is reset to the trimmed line, \<open>next()\<close> is called
  until it returns nothing, and the tokens other than \<open>WHITESPACE\<close> are kept.
\<close>

function lexInputLoop :: "string \<Rightarrow> Token list" where
  "lexInputLoop s =
     (case inputLexerNext s of
        None \<Rightarrow> []
      | Some (token, rest) \<Rightarrow>
          if tokType token \<noteq> ''WHITESPACE'' then token # lexInputLoop rest
          else lexInputLoop rest)"
  by pat_completeness auto
termination
  by (relation "measure length") (auto simp: inputLexerNext_shorter)

definition lexInput :: "string \<Rightarrow> Token list" where
  "lexInput ln = lexInputLoop (trim ln)"

text \<open>
  The inner \<open>for\<close> loop of \<open>Runtime.input\<close> over the requested types. \<open>tokens\<close> is
  the part of the token array from \<open>tokenIdx\<close> on. The loop ends with the results
  pushed so far and the error message, or with the thrown error for a requested type
  that is neither a string nor numeric.
\<close>

datatype 'n InputValue = StringResult string | NumberResult 'n

definition consumeComma :: "nat \<Rightarrow> Token list \<Rightarrow> Token list option" where
  "consumeComma resultIdx tokens =
     (if resultIdx > 0 then
        (case tokens of
           [] \<Rightarrow> None
         | t # ts \<Rightarrow> if tokType t = ''COMMA'' then Some ts else None)
      else Some tokens)"

fun parseValues ::
  "'n NumberOps \<Rightarrow> nat \<Rightarrow> DataTypeSpec list \<Rightarrow> Token list \<Rightarrow> 'n InputValue list
   \<Rightarrow> error + ('n InputValue list \<times> string option)" where
  "parseValues ops resultIdx [] tokens results = Inr (results, None)"
| "parseValues ops resultIdx (resultType # types) tokens results =
     (let errorMessagePrefix = ''Error parsing value '' @ showNat (resultIdx + 1) @ '': '' in
      case consumeComma resultIdx tokens of
        None \<Rightarrow> Inr (results, Some (errorMessagePrefix @ ''Comma expected''))
      | Some [] \<Rightarrow> Inr (results, Some (errorMessagePrefix @ ''No value provided''))
      | Some (t # ts) \<Rightarrow>
          if tokType t = ''STRING'' then
            (if isString [resultType] then
               parseValues ops (resultIdx + 1) types ts (results @ [StringResult (tokValue t)])
             else if isNumeric [resultType] then
               (if isNaN ops (parseFloat ops (tokValue t)) then
                  Inr (results,
                       Some (errorMessagePrefix @ ''Invalid numeric value ''
                             @ [dquote] @ tokValue t @ [dquote]))
                else
                  parseValues ops (resultIdx + 1) types ts
                    (results @ [NumberResult (parseFloat ops (tokValue t))]))
             else Inl (Error ''Unexpected result type''))
          else Inr (results, Some (errorMessagePrefix @ ''No value provided'')))"

text \<open>
  \<open>Runtime.input\<close>. The platform is the list of lines the user will enter and the
  list of strings printed so far. Each round prints the prompt and awaits a line; when
  no line is left the promise of \<open>inputLine\<close> never resolves and the call stays
  suspended (\<open>Awaiting\<close>). The recursion is on the lines that are left.
\<close>

datatype 'n InputOutcome = Returned "'n InputValue list" | Thrown error | Awaiting

definition redoMessage :: "string option \<Rightarrow> string" where
  "redoMessage errorMessage =
     [newline]
     @ (case errorMessage of
          Some m \<Rightarrow> if m \<noteq> [] then m @ [newline] else []
        | None \<Rightarrow> [])
     @ ''Redo from start'' @ [newline]"

fun input ::
  "'n NumberOps \<Rightarrow> string \<Rightarrow> DataTypeSpec list \<Rightarrow> string list \<Rightarrow> string list
   \<Rightarrow> 'n InputOutcome \<times> string list" where
  "input ops prompt resultTypes [] printed = (Awaiting, printed @ [prompt])"
| "input ops prompt resultTypes (ln # lns) printed =
     (case parseValues ops 0 resultTypes (lexInput ln) [] of
        Inl e \<Rightarrow> (Thrown e, printed @ [prompt])
      | Inr (results, errorMessage) \<Rightarrow>
          if length results = length resultTypes then (Returned results, printed @ [prompt])
          else if length results < length resultTypes then
            input ops prompt resultTypes lns (printed @ [prompt, redoMessage errorMessage])
          else (Thrown (Error ''Too many results''), printed @ [prompt]))"

text \<open>
  In the words of the claim, for comparison with the loop: the tokens of the line, read
  from the left, supply one well-typed value per requested type when each type finds a
  \<open>STRING\<close> token (a field), preceded by a \<open>COMMA\<close> token for every type but the
  first, and a field for a numeric type is not parsed to NaN. \<open>numFields\<close> counts the
  fields of a line.
\<close>

definition wellTypedField :: "'n NumberOps \<Rightarrow> DataTypeSpec \<Rightarrow> Token \<Rightarrow> bool" where
  "wellTypedField ops resultType t =
     (tokType t = ''STRING'' \<and>
      (isStringType resultType
       \<or> (isNumericType resultType \<and> \<not> isNaN ops (parseFloat ops (tokValue t)))))"

fun suppliesValues :: "'n NumberOps \<Rightarrow> bool \<Rightarrow> DataTypeSpec list \<Rightarrow> Token list \<Rightarrow> bool" where
  "suppliesValues ops isFirst [] tokens = True"
| "suppliesValues ops isFirst (resultType # types) [] = False"
| "suppliesValues ops True (resultType # types) (t # ts) =
     (wellTypedField ops resultType t \<and> suppliesValues ops False types ts)"
| "suppliesValues ops False (resultType # types) [t] = False"
| "suppliesValues ops False (resultType # types) (sep # t # ts) =
     (tokType sep = ''COMMA'' \<and> wellTypedField ops resultType t
      \<and> suppliesValues ops False types ts)"

definition numFields :: "string \<Rightarrow> nat" where
  "numFields ln = length (filter (\<lambda>t. tokType t = ''STRING'') (lexInput ln))"

section \<open>Abstract syntax of expressions\<close>

text \<open>
  Modelled from the spec: the expression nodes of lib/ast (section 3, "AST"). Every
  node has its position; the fields that analysis sets (\<open>typeSpec\<close>, and for a
  variable reference \<open>varType\<close> and \<open>varScope\<close>) are optional and absent after
  parsing. The operators are those the analyzer and the generator switch on.
\<close>

datatype 'n LiteralValue = StringLiteral string | NumberLiteral 'n

datatype BinaryOp =
  ADD | SUB | MUL | DIV | INTDIV | EXP | MOD | AND | OR | EQ | NE | GT | GTE | LT | LTE

datatype UnaryOp = NEG | NOT | PARENS

datatype VarType = VAR | ARG | CONST

datatype VarScope = LOCAL | GLOBAL

datatype 'n Expr =
    LiteralExpr Loc "'n LiteralValue" "DataTypeSpec option"
  | VarRefExpr Loc string "DataTypeSpec option" "VarType option" "VarScope option"
  | FnCallExpr Loc string "'n Expr list" "DataTypeSpec option"
  | BinaryOpExpr Loc BinaryOp "'n Expr" "'n Expr" "DataTypeSpec option"
  | UnaryOpExpr Loc UnaryOp "'n Expr" "DataTypeSpec option"

fun exprTypeSpec :: "'n Expr \<Rightarrow> DataTypeSpec option" where
  "exprTypeSpec (LiteralExpr l v ts) = ts"
| "exprTypeSpec (VarRefExpr l n ts vt vs) = ts"
| "exprTypeSpec (FnCallExpr l n args ts) = ts"
| "exprTypeSpec (BinaryOpExpr l op a b ts) = ts"
| "exprTypeSpec (UnaryOpExpr l op r ts) = ts"

section \<open>Semantic analyzer: resolving variable references\<close>

text \<open>
  Modelled from the spec: a symbol (section 3, "Symbol") and what the analyzer reads of
  a procedure: its kind (the code tests \<open>proc.type === ProcType.FN\<close>; \<open>OTHER_PROC\<close>
  stands for any other kind), its name, and the symbol lists and return type that
  \<open>preprocessProc\<close> fills in.
\<close>

record VarSymbol =
  symName :: string
  symType :: VarType
  symTypeSpec :: DataTypeSpec

datatype ProcType = FN | OTHER_PROC

record Proc =
  procType :: ProcType
  procName :: string
  paramSymbols :: "VarSymbol list"
  localSymbols :: "VarSymbol list"
  procReturnTypeSpec :: "DataTypeSpec option"

text \<open>
  The analyzer's state: the module's procedures and symbol lists, and \<open>currentProc\<close>.
  In the source \<open>currentProc\<close> is a reference to one of the module's procedure objects,
  so a symbol pushed on its \<open>localSymbols\<close> is seen through \<open>module.procs\<close> as well;
  the model keeps the index of that procedure in \<open>procs\<close>.
\<close>

record AnalyzerState =
  procs :: "Proc list"
  moduleLocalSymbols :: "VarSymbol list"
  moduleGlobalSymbols :: "VarSymbol list"
  currentProc :: "nat option"

definition currentProcOf :: "AnalyzerState \<Rightarrow> Proc option" where
  "currentProcOf st =
     (case currentProc st of
        None \<Rightarrow> None
      | Some i \<Rightarrow> if i < length (procs st) then Some (procs st ! i) else None)"

definition TYPE_SUFFIX_MAP :: "(char \<times> DataTypeSpec) list" where
  "TYPE_SUFFIX_MAP =
     [(CHR ''%'', integerSpec), (CHR ''&'', longSpec), (CHR ''!'', singleSpec),
      (CHR ''#'', doubleSpec), (CHR ''$'', stringSpec)]"

definition getTypeSpecFromSuffix :: "string \<Rightarrow> DataTypeSpec" where
  "getTypeSpecFromSuffix n =
     (case n of
        [] \<Rightarrow> singleSpec
      | c # cs \<Rightarrow>
          (case map_of TYPE_SUFFIX_MAP (last n) of
             Some t \<Rightarrow> t
           | None \<Rightarrow> singleSpec))"

definition getLocalSymbols :: "AnalyzerState \<Rightarrow> VarSymbol list" where
  "getLocalSymbols st =
     (case currentProcOf st of
        Some p \<Rightarrow> localSymbols p
      | None \<Rightarrow> moduleLocalSymbols st)"

text \<open>The private method \<open>SemanticAnalyzer.lookupSymbol\<close>.\<close>

definition analyzerLookupSymbol :: "AnalyzerState \<Rightarrow> string \<Rightarrow> (VarSymbol \<times> VarScope) option" where
  "analyzerLookupSymbol st n =
     (case (case currentProcOf st of
              Some p \<Rightarrow> lookupSymbol symName (paramSymbols p) n
            | None \<Rightarrow> None) of
        Some symbol \<Rightarrow> Some (symbol, LOCAL)
      | None \<Rightarrow>
          (case lookupSymbol symName (getLocalSymbols st) n of
             Some symbol \<Rightarrow> Some (symbol, LOCAL)
           | None \<Rightarrow>
               (case lookupSymbol symName (moduleGlobalSymbols st) n of
                  Some symbol \<Rightarrow> Some (symbol, GLOBAL)
                | None \<Rightarrow> None)))"

definition addLocalSymbol :: "AnalyzerState \<Rightarrow> VarSymbol \<Rightarrow> AnalyzerState" where
  "addLocalSymbol st symbol =
     (case currentProc st of
        Some i \<Rightarrow>
          if i < length (procs st) then
            st\<lparr>procs := (procs st)
                  [i := (procs st ! i)\<lparr>localSymbols := localSymbols (procs st ! i) @ [symbol]\<rparr>]\<rparr>
          else st
      | None \<Rightarrow> st\<lparr>moduleLocalSymbols := moduleLocalSymbols st @ [symbol]\<rparr>)"

text \<open>
  Modelled from the spec: \<open>AstVisitor.acceptAll\<close> (lib/ast) visits the nodes in order.
  The visitor's dispatch over expressions, \<open>accept\<close>, is a parameter: it returns the
  node as the visit left it and the new state, or the error thrown.
\<close>

type_synonym 'n acceptFn = "AnalyzerState \<Rightarrow> 'n Expr \<Rightarrow> error + ('n Expr \<times> AnalyzerState)"

fun acceptAll ::
  "'n acceptFn \<Rightarrow> AnalyzerState \<Rightarrow> 'n Expr list \<Rightarrow> error + ('n Expr list \<times> AnalyzerState)" where
  "acceptAll accept st [] = Inr ([], st)"
| "acceptAll accept st (e # es) =
     (case accept st e of
        Inl err \<Rightarrow> Inl err
      | Inr (e', st') \<Rightarrow>
          (case acceptAll accept st' es of
             Inl err \<Rightarrow> Inl err
           | Inr (es', st'') \<Rightarrow> Inr (e' # es', st'')))"

text \<open>
  The argument check of \<open>visitFnCallExpr\<close>: the first argument whose type does not
  match its parameter raises the error (an argument left without a type makes
  \<open>areMatchingElementaryTypes\<close> read a property of \<open>undefined\<close>).
\<close>

fun checkArgTypes :: "Loc \<Rightarrow> VarSymbol list \<Rightarrow> 'n Expr list \<Rightarrow> error option" where
  "checkArgTypes loc (p # ps) (a # as) =
     (case exprTypeSpec a of
        None \<Rightarrow> Some (TypeError ''Cannot read properties of undefined'')
      | Some argTypeSpec \<Rightarrow>
          if \<not> areMatchingElementaryTypes (symTypeSpec p) argTypeSpec
          then Some (SemanticError ''Incompatible argument to function'' loc)
          else checkArgTypes loc ps as)"
| "checkArgTypes loc ps as = None"

definition visitFnCallExpr ::
  "'n acceptFn \<Rightarrow> AnalyzerState \<Rightarrow> Loc \<Rightarrow> string \<Rightarrow> 'n Expr list
   \<Rightarrow> error + ('n Expr \<times> AnalyzerState)" where
  "visitFnCallExpr accept st loc n argExprs =
     (case lookupSymbol procName (procs st) n of
        None \<Rightarrow> Inl (SemanticError ''Function not found'' loc)
      | Some proc \<Rightarrow>
          if procType proc \<noteq> FN then Inl (SemanticError ''Function not found'' loc)
          else if length (paramSymbols proc) \<noteq> length argExprs then
            Inl (SemanticError ''Incorrect number of arguments to function'' loc)
          else
            (case acceptAll accept st argExprs of
               Inl err \<Rightarrow> Inl err
             | Inr (argExprs', st') \<Rightarrow>
                 (case checkArgTypes loc (paramSymbols proc) argExprs' of
                    Some err \<Rightarrow> Inl err
                  | None \<Rightarrow> Inr (FnCallExpr loc n argExprs' (procReturnTypeSpec proc), st'))))"

text \<open>
  \<open>visitVarRefExpr\<close> on the node \<open>VarRef{loc, name}\<close>. The result is the node as the
  method leaves it: annotated, or overwritten by \<open>Object.assign\<close> with the analysed
  call.
\<close>

definition visitVarRefExpr ::
  "'n acceptFn \<Rightarrow> AnalyzerState \<Rightarrow> Loc \<Rightarrow> string \<Rightarrow> error + ('n Expr \<times> AnalyzerState)" where
  "visitVarRefExpr accept st loc n =
     (case analyzerLookupSymbol st n of
        Some (symbol, scope) \<Rightarrow>
          Inr (VarRefExpr loc n (Some (symTypeSpec symbol)) (Some (symType symbol)) (Some scope), st)
      | None \<Rightarrow>
          (case lookupSymbol procName (procs st) n of
             Some proc \<Rightarrow>
               if procType proc = FN then visitFnCallExpr accept st loc n []
               else Inl (SemanticError ''Procedure is not a function'' loc)
           | None \<Rightarrow>
               Inr (VarRefExpr loc n (Some (getTypeSpecFromSuffix n)) (Some VAR) (Some LOCAL),
                    addLocalSymbol st
                      \<lparr>symName = n, symType = VAR, symTypeSpec = getTypeSpecFromSuffix n\<rparr>)))"

text \<open>
  In the words of the claim, for comparison: a chain of symbol tables searched in
  order, each with the scope it stands for, and the type a name's sigil declares.
\<close>

fun firstFound :: "(VarSymbol list \<times> VarScope) list \<Rightarrow> string \<Rightarrow> (VarSymbol \<times> VarScope) option" where
  "firstFound [] n = None"
| "firstFound ((table, scope) # tables) n =
     (case lookupSymbol symName table n of
        Some symbol \<Rightarrow> Some (symbol, scope)
      | None \<Rightarrow> firstFound tables n)"

definition claimedChain :: "AnalyzerState \<Rightarrow> (VarSymbol list \<times> VarScope) list" where
  "claimedChain st =
     (case currentProcOf st of
        Some p \<Rightarrow> [(paramSymbols p, LOCAL), (localSymbols p, LOCAL)]
      | None \<Rightarrow> [])
     @ [(moduleLocalSymbols st, LOCAL), (moduleGlobalSymbols st, GLOBAL)]"

definition searchedChain :: "AnalyzerState \<Rightarrow> (VarSymbol list \<times> VarScope) list" where
  "searchedChain st =
     (case currentProcOf st of
        Some p \<Rightarrow> [(paramSymbols p, LOCAL), (localSymbols p, LOCAL)]
      | None \<Rightarrow> [(moduleLocalSymbols st, LOCAL)])
     @ [(moduleGlobalSymbols st, GLOBAL)]"

definition sigilType :: "string \<Rightarrow> DataTypeSpec" where
  "sigilType n =
     (if n = [] then singleSpec
      else if last n = CHR ''%'' then integerSpec
      else if last n = CHR ''&'' then longSpec
      else if last n = CHR ''!'' then singleSpec
      else if last n = CHR ''#'' then doubleSpec
      else if last n = CHR ''$'' then stringSpec
      else singleSpec)"

section \<open>Lexer\<close>

text \<open>
  The lexer is a table of rules for the moo library, which is a dependency and not
  repository code. What the model takes from moo: the rules are joined into one
  alternation in the order written, so at each position the first rule that matches
  wins and takes what its regular expression takes; a token's type is the result of
  the rule's \<open>type\<close> transform on the matched text, or the rule's name when the
  transform returns a falsy value (the \<open>IDENTIFIER\<close> rule relies on this for
  identifiers that are no keywords); \<open>next()\<close> returns nothing at the end of the
  input and throws when no rule matches.
\<close>

definition mooTokenType :: "string \<Rightarrow> string \<Rightarrow> string" where
  "mooTokenType transformed defaultType = (if transformed = [] then defaultType else transformed)"

text \<open>
  The enum \<open>Keywords\<close> and \<open>caseInsensitiveKeywords\<close>: the lower-cased text is looked
  up among the keyword spellings and gives the keyword's name, or nothing (the empty
  string stands for \<open>undefined\<close>).
\<close>

definition Keywords :: "(string \<times> string) list" where
  "Keywords =
     [(''and'', ''AND''), (''else'', ''ELSE''), (''elseif'', ''ELSEIF''), (''end'', ''END''),
      (''goto'', ''GOTO''), (''if'', ''IF''), (''let'', ''LET''), (''mod'', ''MOD''),
      (''or'', ''OR''), (''print'', ''PRINT''), (''then'', ''THEN'')]"

definition caseInsensitiveKeywords :: "string \<Rightarrow> string" where
  "caseInsensitiveKeywords txt =
     (case map_of Keywords (toLowerCase txt) of Some k \<Rightarrow> k | None \<Rightarrow> [])"

definition apostrophe :: char where
  "apostrophe = CHR 0x27"

definition isIdentStart :: "char \<Rightarrow> bool" where
  "isIdentStart c =
     ((65 \<le> charCode c \<and> charCode c \<le> 90) \<or> (97 \<le> charCode c \<and> charCode c \<le> 122)
      \<or> c = CHR ''_'')"

definition isIdentChar :: "char \<Rightarrow> bool" where
  "isIdentChar c = (isIdentStart c \<or> isDigit c)"

definition isSigil :: "char \<Rightarrow> bool" where
  "isSigil c = (c \<in> set ''$%#&!'')"

text \<open>
  \<open>NUMERIC_LITERAL\<close> \<open>/-?(?:\d*\.\d+|\d+)/\<close>: after an optional minus sign, digits
  with a point and at least one digit after it, or else at least one digit. The split
  is the matched text and the rest.
\<close>

definition matchNumericLiteral :: "string \<Rightarrow> (string \<times> string) option" where
  "matchNumericLiteral s =
     (let sign = (if s \<noteq> [] \<and> hd s = CHR ''-'' then ''-'' else []);
          r = drop (length sign) s;
          ds = takeWhile isDigit r;
          after = dropWhile isDigit r
      in if after \<noteq> [] \<and> hd after = CHR ''.'' \<and> takeWhile isDigit (tl after) \<noteq> [] then
           Some (sign @ ds @ ''.'' @ takeWhile isDigit (tl after), dropWhile isDigit (tl after))
         else if ds \<noteq> [] then Some (sign @ ds, after)
         else None)"

text \<open>The literal rules after \<open>NUMERIC_LITERAL\<close>, in the order of the table.\<close>

definition PUNCTUATION :: "(string \<times> string) list" where
  "PUNCTUATION =
     [('':'', ''COLON''), ('';'', ''SEMICOLON''), ('','', ''COMMA''), (''('', ''LPAREN''),
      ('')'', ''RPAREN''), (''+'', ''ADD''), (''-'', ''SUB''), (''*'', ''MUL''), (''^'', ''EXP''),
      (''/'', ''DIV''), ([CHR 0x5C], ''INTDIV''), (''='', ''EQ''), (''<>'', ''NE''),
      (''>='', ''GTE''), (''<='', ''LTE''), (''>'', ''GT''), (''<'', ''LT'')]"

definition matchPunctuation :: "string \<Rightarrow> (string \<times> string) option" where
  "matchPunctuation s = find (\<lambda>rule. take (length (fst rule)) s = fst rule) PUNCTUATION"

text \<open>One call of the generated lexer's own \<open>next()\<close> on the input that is left.\<close>

definition mooNext :: "string \<Rightarrow> error + (Token \<times> string) option" where
  "mooNext s =
     (case s of
        [] \<Rightarrow> Inr None
      | c # cs \<Rightarrow>
          if isSpace c then
            Inr (Some
              (\<lparr>tokType = mooTokenType
                            (if newline \<in> set (c # takeWhile isSpace cs) then ''NEWLINE'' else [])
                            ''WHITESPACE'',
                tokValue = c # takeWhile isSpace cs, tokText = c # takeWhile isSpace cs\<rparr>,
               dropWhile isSpace cs))
          else if c = apostrophe then
            Inr (Some
              (\<lparr>tokType = ''COMMENT'', tokValue = c # takeWhile (\<lambda>x. x \<noteq> newline) cs,
                tokText = c # takeWhile (\<lambda>x. x \<noteq> newline) cs\<rparr>,
               dropWhile (\<lambda>x. x \<noteq> newline) cs))
          else if isIdentStart c then
            (let body = takeWhile isIdentChar cs;
                 after = dropWhile isIdentChar cs;
                 sigil = (if after \<noteq> [] \<and> isSigil (hd after) then [hd after] else []);
                 txt = c # body @ sigil
             in Inr (Some
                  (\<lparr>tokType = mooTokenType (caseInsensitiveKeywords txt) ''IDENTIFIER'',
                    tokValue = txt, tokText = txt\<rparr>,
                   drop (length sigil) after)))
          else if c = dquote \<and> dquote \<in> set cs then
            Inr (Some
              (\<lparr>tokType = ''STRING_LITERAL'', tokValue = takeWhile (\<lambda>x. x \<noteq> dquote) cs,
                tokText = c # takeWhile (\<lambda>x. x \<noteq> dquote) cs @ [dquote]\<rparr>,
               drop 1 (dropWhile (\<lambda>x. x \<noteq> dquote) cs)))
          else
            (case matchNumericLiteral s of
               Some (txt, rest) \<Rightarrow>
                 Inr (Some (\<lparr>tokType = ''NUMERIC_LITERAL'', tokValue = txt, tokText = txt\<rparr>, rest))
             | None \<Rightarrow>
                 (case matchPunctuation s of
                    Some rule \<Rightarrow>
                      Inr (Some (\<lparr>tokType = snd rule, tokValue = fst rule, tokText = fst rule\<rparr>,
                                 drop (length (fst rule)) s))
                  | None \<Rightarrow> Inl (LexError ''invalid syntax''))))"

lemma matchNumericLiteral_shorter:
  "matchNumericLiteral s = Some (txt, rest) \<Longrightarrow> length rest < length s"
proof -
  assume m: "matchNumericLiteral s = Some (txt, rest)"
  define sign where "sign = (if s \<noteq> [] \<and> hd s = CHR ''-'' then ''-'' else [])"
  define r where "r = drop (length sign) s"
  have rs: "length r \<le> length s" by (simp add: r_def)
  have a: "length (dropWhile isDigit r) \<le> length r" by (rule length_dropWhile_le)
  show ?thesis
  proof (cases "dropWhile isDigit r \<noteq> [] \<and> hd (dropWhile isDigit r) = CHR ''.''
      \<and> takeWhile isDigit (tl (dropWhile isDigit r)) \<noteq> []")
    case True
    then have rest: "rest = dropWhile isDigit (tl (dropWhile isDigit r))"
      using m unfolding matchNumericLiteral_def Let_def sign_def [symmetric] r_def [symmetric]
      by simp
    have "length (dropWhile isDigit (tl (dropWhile isDigit r))) \<le> length (tl (dropWhile isDigit r))"
      by (rule length_dropWhile_le)
    moreover have "length (tl (dropWhile isDigit r)) < length (dropWhile isDigit r)"
      using True by (cases "dropWhile isDigit r") simp_all
    ultimately show ?thesis unfolding rest using a rs by linarith
  next
    case False
    then have ds: "takeWhile isDigit r \<noteq> []" and rest: "rest = dropWhile isDigit r"
      using m unfolding matchNumericLiteral_def Let_def sign_def [symmetric] r_def [symmetric]
      by (auto split: if_splits)
    have "length (takeWhile isDigit r) + length (dropWhile isDigit r) = length r"
      by (metis length_append takeWhile_dropWhile_id)
    then have "length (dropWhile isDigit r) < length r" using ds by (cases "takeWhile isDigit r") auto
    then show ?thesis unfolding rest using rs by linarith
  qed
qed

lemma matchPunctuation_nonempty:
  "matchPunctuation s = Some rule \<Longrightarrow> fst rule \<noteq> [] \<and> take (length (fst rule)) s = fst rule"
proof -
  assume m: "matchPunctuation s = Some rule"
  then have "rule \<in> set PUNCTUATION" and t: "take (length (fst rule)) s = fst rule"
    unfolding matchPunctuation_def by (auto simp: find_Some_iff)
  then show ?thesis by (auto simp: PUNCTUATION_def)
qed

lemma mooNext_shorter:
  "mooNext s = Inr (Some (t, rest)) \<Longrightarrow> length rest < length s"
proof (cases s)
  case Nil
  assume "mooNext s = Inr (Some (t, rest))"
  with Nil show ?thesis by (simp add: mooNext_def)
next
  case (Cons c cs)
  assume m: "mooNext s = Inr (Some (t, rest))"
  have dw: "\<And>P. length (dropWhile P cs) < Suc (length cs)"
    by (simp add: less_Suc_eq_le length_dropWhile_le)
  have dw1: "\<And>P n. length (dropWhile P cs) - n < Suc (length cs)"
    using dw less_imp_diff_less by blast
  consider (ws) "isSpace c" | (cm) "\<not> isSpace c" "c = apostrophe"
    | (idt) "\<not> isSpace c" "c \<noteq> apostrophe" "isIdentStart c"
    | (str) "\<not> isSpace c" "c \<noteq> apostrophe" "\<not> isIdentStart c" "c = dquote \<and> dquote \<in> set cs"
    | (oth) "\<not> isSpace c" "c \<noteq> apostrophe" "\<not> isIdentStart c" "\<not> (c = dquote \<and> dquote \<in> set cs)"
    by blast
  then show ?thesis
  proof cases
    case ws
    with m Cons show ?thesis by (auto simp: mooNext_def dw)
  next
    case cm
    with m Cons show ?thesis by (auto simp: mooNext_def dw)
  next
    case idt
    with m Cons show ?thesis by (auto simp: mooNext_def Let_def dw dw1 split: if_splits)
  next
    case str
    with m Cons show ?thesis by (auto simp: mooNext_def dw1)
  next
    case oth
    show ?thesis
    proof (cases "matchNumericLiteral s")
      case (Some a)
      with m Cons oth show ?thesis
        using matchNumericLiteral_shorter [of s "fst a" "snd a"]
        by (auto simp: mooNext_def split: prod.splits)
    next
      case None
      with m Cons oth obtain rule where r: "matchPunctuation s = Some rule"
        and rest: "rest = drop (length (fst rule)) s"
        by (auto simp: mooNext_def split: option.splits)
      from matchPunctuation_nonempty [OF r] have "0 < length (fst rule)" by simp
      then show ?thesis using rest Cons by simp
    qed
  qed
qed

text \<open>
  The wrapper installed over \<open>lexer.next\<close>: tokens whose type is \<open>WHITESPACE\<close> or
  \<open>COMMENT\<close> are skipped, the first other token (or the end of the input) is
  returned.
\<close>

definition TOKEN_TYPES_TO_DISCARD :: "string list" where
  "TOKEN_TYPES_TO_DISCARD = [''WHITESPACE'', ''COMMENT'']"

function lexerNext :: "string \<Rightarrow> error + (Token \<times> string) option" where
  "lexerNext s =
     (case mooNext s of
        Inl err \<Rightarrow> Inl err
      | Inr None \<Rightarrow> Inr None
      | Inr (Some (token, rest)) \<Rightarrow>
          if tokType token \<noteq> [] \<and> tokType token \<in> set TOKEN_TYPES_TO_DISCARD
          then lexerNext rest
          else Inr (Some (token, rest)))"
  by pat_completeness auto
termination
  by (relation "measure length") (auto simp: mooNext_shorter)

lemma lexerNext_shorter:
  "lexerNext s = Inr (Some (t, rest)) \<Longrightarrow> length rest < length s"
proof (induction s rule: lexerNext.induct)
  case (1 s)
  show ?case
  proof (cases "mooNext s")
    case (Inl e)
    with "1.prems" show ?thesis by simp
  next
    case (Inr r)
    show ?thesis
    proof (cases r)
      case None
      with Inr "1.prems" show ?thesis by simp
    next
      case (Some p)
      obtain token rest' where p: "p = (token, rest')" by (cases p)
      have sh: "length rest' < length s" using Inr Some p mooNext_shorter by simp
      show ?thesis
      proof (cases "tokType token \<noteq> [] \<and> tokType token \<in> set TOKEN_TYPES_TO_DISCARD")
        case True
        then have "lexerNext s = lexerNext rest'" using Inr Some p by simp
        with "1.prems" have "lexerNext rest' = Inr (Some (t, rest))" by simp
        from "1.IH" [OF Inr Some p [symmetric] True this] sh show ?thesis
          by (rule less_trans)
      next
        case False
        then have "lexerNext s = Inr (Some (token, rest'))" using Inr Some p by auto
        with "1.prems" sh show ?thesis by simp
      qed
    qed
  qed
qed

declare lexerNext.simps [simp del]

text \<open>The token stream of a text: \<open>next()\<close> until it returns nothing.\<close>

function lexAll :: "string \<Rightarrow> error + Token list" where
  "lexAll s =
     (case lexerNext s of
        Inl err \<Rightarrow> Inl err
      | Inr None \<Rightarrow> Inr []
      | Inr (Some (token, rest)) \<Rightarrow>
          (case lexAll rest of
             Inl err \<Rightarrow> Inl err
           | Inr tokens \<Rightarrow> Inr (token # tokens)))"
  by pat_completeness auto
termination
  by (relation "measure length") (auto simp: lexerNext_shorter)

declare lexAll.simps [simp del]

text \<open>
  For the claim about white space: the maximal runs of white space of a text, in order,
  and those of them that contain a newline.
\<close>

fun whitespaceRunsFrom :: "string \<Rightarrow> string \<Rightarrow> string list" where
  "whitespaceRunsFrom run [] = (if run = [] then [] else [run])"
| "whitespaceRunsFrom run (c # cs) =
     (if isSpace c then whitespaceRunsFrom (run @ [c]) cs
      else (if run = [] then [] else [run]) @ whitespaceRunsFrom [] cs)"

definition newlineRuns :: "string \<Rightarrow> string list" where
  "newlineRuns s = filter (\<lambda>run. newline \<in> set run) (whitespaceRunsFrom [] s)"

definition newlineTokens :: "Token list \<Rightarrow> Token list" where
  "newlineTokens tokens = filter (\<lambda>t. tokType t = ''NEWLINE'') tokens"

section \<open>Abstract syntax of statements\<close>

text \<open>
  Modelled from the spec: the statement nodes of lib/ast (section 3, "AST"), with the
  field names the generator reads. An argument of \<open>PRINT\<close> is a separator (the string
  of its \<open>PrintArgType\<close>) or an expression.
\<close>

datatype CondLoopStructure = COND_EXPR_BEFORE_STMTS | COND_EXPR_AFTER_STMTS

datatype 'n PrintStmtArg = PrintSeparator string | PrintExpr "'n Expr"

record 'n ForStmtNode =
  forLoc :: Loc
  counterExpr :: "'n Expr"
  startExpr :: "'n Expr"
  endExpr :: "'n Expr"
  stepExpr :: "'n Expr option"

datatype 'n Stmt =
    LabelStmt Loc string
  | AssignStmt Loc "'n Expr" "'n Expr"
  | GotoStmt Loc string
  | IfStmt Loc "('n Expr \<times> 'n Stmt list) list" "'n Stmt list"
  | CondLoopStmt Loc CondLoopStructure bool "'n Expr" "'n Stmt list"
  | UncondLoopStmt Loc "'n Stmt list"
  | ExitLoopStmt Loc
  | ForStmt "'n ForStmtNode"
  | NextStmt Loc "'n Expr list"
  | ExitForStmt Loc
  | GosubStmt Loc string
  | ReturnStmt Loc "string option"
  | EndStmt Loc
  | PrintStmt Loc "'n PrintStmtArg list"
  | InputStmt Loc string "'n Expr list"

fun exprLoc :: "'n Expr \<Rightarrow> Loc" where
  "exprLoc (LiteralExpr l v ts) = l"
| "exprLoc (VarRefExpr l n ts vt vs) = l"
| "exprLoc (FnCallExpr l n args ts) = l"
| "exprLoc (BinaryOpExpr l op a b ts) = l"
| "exprLoc (UnaryOpExpr l op r ts) = l"

fun stmtLoc :: "'n Stmt \<Rightarrow> Loc" where
  "stmtLoc (LabelStmt l x) = l"
| "stmtLoc (AssignStmt l t v) = l"
| "stmtLoc (GotoStmt l d) = l"
| "stmtLoc (IfStmt l bs e) = l"
| "stmtLoc (CondLoopStmt l s n c b) = l"
| "stmtLoc (UncondLoopStmt l b) = l"
| "stmtLoc (ExitLoopStmt l) = l"
| "stmtLoc (ForStmt f) = forLoc f"
| "stmtLoc (NextStmt l cs) = l"
| "stmtLoc (ExitForStmt l) = l"
| "stmtLoc (GosubStmt l d) = l"
| "stmtLoc (ReturnStmt l d) = l"
| "stmtLoc (EndStmt l) = l"
| "stmtLoc (PrintStmt l as) = l"
| "stmtLoc (InputStmt l p ts) = l"

section \<open>Code generator: text, labels and expressions\<close>

text \<open>
  The generator builds \<open>SourceNode\<close>s of the source-map library; the model keeps the
  text of a node (what \<open>toString()\<close> gives, the concatenation of its chunks), which is
  also what \<open>visitNextStmt\<close> compares. What the generator takes from outside is
  collected in an environment: its options, the engine's rendering of a number in a
  template string, and \<open>JSON.stringify\<close> on a string and on a type spec (whose object
  layout is in lib/types).
\<close>

record 'n CodegenEnv =
  indentWidth :: nat
  sourceFileName :: string
  numberText :: "'n \<Rightarrow> string"
  stringifyString :: "string \<Rightarrow> string"
  stringifyTypeSpec :: "DataTypeSpec \<Rightarrow> string"

text \<open>
  The generator's state. Both stacks are arrays in the source, pushed and popped at
  the end; the model keeps the top of a stack at the head of the list, so that the
  array element \<open>[length - 1 - i]\<close> is the list element \<open>i\<close>. Of an open loop only the
  end label is ever read.
\<close>

record 'n ForStmtState =
  forStmt :: "'n ForStmtNode"
  startLabel :: string
  endLabel :: string
  stepValue :: string
  endValue :: string

record 'n CodegenState =
  openForStmtStates :: "'n ForStmtState list"
  openLoopStmtStates :: "string list"
  indent :: int
  nextGeneratedLabelIdx :: nat

definition quoted :: "string \<Rightarrow> string" where
  "quoted s = [apostrophe] @ s @ [apostrophe]"

text \<open>
  Modelled from the spec: the enum values of runtime/compiled-code that the generator
  writes into the output (the directives Goto, Gosub, Return and End of section 3, the
  print argument tag Value, the procedure kind).
\<close>

definition directiveGOTO :: string where "directiveGOTO = ''goto''"
definition directiveGOSUB :: string where "directiveGOSUB = ''gosub''"
definition directiveRETURN :: string where "directiveRETURN = ''return''"
definition directiveEND :: string where "directiveEND = ''end''"
definition printArgVALUE :: string where "printArgVALUE = ''value''"
definition compiledProcFN :: string where "compiledProcFN = ''fn''"

text \<open>
  \<open>lines\<close>: a string argument is a line, indented unless empty; a number changes the
  indentation. \<open>' '.repeat\<close> throws a RangeError on a negative count.
\<close>

datatype LineValue = Ln string | Shift int

fun linesLoop :: "nat \<Rightarrow> int \<Rightarrow> LineValue list \<Rightarrow> error + (string list \<times> int)" where
  "linesLoop w ind [] = Inr ([], ind)"
| "linesLoop w ind (Ln v # values) =
     (if v \<noteq> [] \<and> int w * ind < 0 then Inl (Error ''RangeError: Invalid count value'')
      else
        (case linesLoop w ind values of
           Inl err \<Rightarrow> Inl err
         | Inr (outputLines, ind') \<Rightarrow>
             Inr (((if v \<noteq> [] then replicate (w * nat ind) CHR '' '' else []) @ v) # outputLines,
                  ind')))"
| "linesLoop w ind (Shift d # values) = linesLoop w (ind + d) values"

fun joinLines :: "string list \<Rightarrow> string" where
  "joinLines [] = []"
| "joinLines [l] = l"
| "joinLines (l # ls) = l @ [newline] @ joinLines ls"

definition lines ::
  "'n CodegenEnv \<Rightarrow> 'n CodegenState \<Rightarrow> LineValue list \<Rightarrow> error + (string \<times> 'n CodegenState)" where
  "lines env st values =
     (case linesLoop (indentWidth env) (indent st) values of
        Inl err \<Rightarrow> Inl err
      | Inr (outputLines, ind') \<Rightarrow> Inr (joinLines outputLines, st\<lparr>indent := ind'\<rparr>))"

definition generateLabel :: "'n CodegenState \<Rightarrow> string \<times> 'n CodegenState" where
  "generateLabel st =
     (''$'' @ showNat (nextGeneratedLabelIdx st),
      st\<lparr>nextGeneratedLabelIdx := nextGeneratedLabelIdx st + 1\<rparr>)"

fun generateLoc :: "Loc \<Rightarrow> string" where
  "generateLoc (Loc ln cl) = ''loc: ['' @ showNat ln @ '', '' @ showNat cl @ ''],''"

definition generateLabelStmt ::
  "'n CodegenEnv \<Rightarrow> 'n CodegenState \<Rightarrow> Loc option \<Rightarrow> string
   \<Rightarrow> error + (string \<times> 'n CodegenState)" where
  "generateLabelStmt env st node label =
     lines env st
       ([Ln ''{'', Shift 1]
        @ (case node of Some l \<Rightarrow> [Ln (generateLoc l)] | None \<Rightarrow> [])
        @ [Ln (''label: '' @ quoted label @ '',''), Shift (- 1), Ln ''},'', Ln []])"

definition generateGotoCode :: "string \<Rightarrow> string" where
  "generateGotoCode destLabel =
     ''return { type: '' @ quoted directiveGOTO @ '', destLabel: '' @ quoted destLabel @ '' };''"

definition generateTempVarRef :: "string \<Rightarrow> string" where
  "generateTempVarRef label = ''ctx.tempVars['' @ quoted label @ '']''"

text \<open>
  \<open>createStmtSourceNode\<close>: the arguments of the inner call are evaluated from left to
  right, so the three \<open>lines\<close> calls before the run code, then the callback (given
  here as its result), then the closing \<open>lines\<close>.
\<close>

definition createStmtSourceNode ::
  "'n CodegenEnv \<Rightarrow> 'n CodegenState \<Rightarrow> Loc \<Rightarrow> error + string
   \<Rightarrow> error + (string \<times> 'n CodegenState)" where
  "createStmtSourceNode env st loc runCode =
     (case lines env st [Ln ''{'', Shift 1, Ln []] of
        Inl err \<Rightarrow> Inl err
      | Inr (a, st1) \<Rightarrow>
     (case lines env st1 [Ln (generateLoc loc), Ln []] of
        Inl err \<Rightarrow> Inl err
      | Inr (b, st2) \<Rightarrow>
     (case lines env st2 [Ln ''async run(ctx) { ''] of
        Inl err \<Rightarrow> Inl err
      | Inr (c, st3) \<Rightarrow>
     (case runCode of
        Inl err \<Rightarrow> Inl err
      | Inr code \<Rightarrow>
     (case lines env st3 [Shift (- 1), Ln ''},'', Ln []] of
        Inl err \<Rightarrow> Inl err
      | Inr (d, st4) \<Rightarrow> Inr (a @ b @ c @ code @ '' },'' @ [newline] @ d, st4))))))"

text \<open>
  The expression visitors. The binary \<open>OP_MAP\<close> covers every operator but \<open>EXP\<close> and
  \<open>INTDIV\<close>, which have cases of their own. The unary \<open>OP_MAP\<close> has entries for
  \<open>NEG\<close> and \<open>NOT\<close> only: for any other operator the chunk \<open>OP_MAP[node.op]\<close> is
  \<open>undefined\<close>, and \<open>SourceNode.add\<close> throws a TypeError on a chunk that is neither a
  string nor a node (after the operand has been generated, the array literal being
  evaluated first). The generator has no \<open>visitFnCallExpr\<close>: the visitor's dispatch
  on a call node calls a method that does not exist.
\<close>

fun binaryOpText :: "BinaryOp \<Rightarrow> string" where
  "binaryOpText ADD = ''+''"
| "binaryOpText SUB = ''-''"
| "binaryOpText MUL = ''*''"
| "binaryOpText DIV = ''/''"
| "binaryOpText MOD = ''%''"
| "binaryOpText AND = ''&&''"
| "binaryOpText OR = ''||''"
| "binaryOpText EQ = ''===''"
| "binaryOpText NE = ''!=''"
| "binaryOpText GT = ''>''"
| "binaryOpText GTE = ''>=''"
| "binaryOpText LT = ''<''"
| "binaryOpText LTE = ''<=''"
| "binaryOpText EXP = []"
| "binaryOpText INTDIV = []"

fun unaryOpText :: "UnaryOp \<Rightarrow> string option" where
  "unaryOpText NEG = Some ''-''"
| "unaryOpText NOT = Some ''!''"
| "unaryOpText PARENS = None"

fun acceptExpr :: "'n CodegenEnv \<Rightarrow> 'n Expr \<Rightarrow> error + string" where
  "acceptExpr env (LiteralExpr loc (StringLiteral v) ts) = Inr (quoted v)"
| "acceptExpr env (LiteralExpr loc (NumberLiteral v) ts) = Inr (numberText env v)"
| "acceptExpr env (VarRefExpr loc n ts vt vs) = Inr (''ctx.localVars['' @ quoted n @ '']'')"
| "acceptExpr env (FnCallExpr loc n args ts) =
     Inl (TypeError ''this.visitFnCallExpr is not a function'')"
| "acceptExpr env (BinaryOpExpr loc op leftExpr rightExpr ts) =
     (case acceptExpr env leftExpr of
        Inl err \<Rightarrow> Inl err
      | Inr l \<Rightarrow>
          (case acceptExpr env rightExpr of
             Inl err \<Rightarrow> Inl err
           | Inr r \<Rightarrow>
               if op = EXP then Inr (''Math.pow('' @ l @ '', '' @ r @ '')'')
               else if op = INTDIV then Inr (''Math.floor('' @ l @ '' / '' @ r @ '')'')
               else Inr (''('' @ l @ '' '' @ binaryOpText op @ '' '' @ r @ '')'')))"
| "acceptExpr env (UnaryOpExpr loc op rightExpr ts) =
     (case acceptExpr env rightExpr of
        Inl err \<Rightarrow> Inl err
      | Inr r \<Rightarrow>
          (case unaryOpText op of
             Some opText \<Rightarrow> Inr (''('' @ opText @ r @ '')'')
           | None \<Rightarrow> Inl (TypeError ''Expected a SourceNode, string, or an array'')))"

text \<open>
  The expression visitors once more, with the operator table of \<open>visitUnaryOpExpr\<close> as
  an argument; with \<open>unaryOpText\<close> they are \<open>acceptExpr\<close>.
\<close>

fun acceptExprWith ::
  "(UnaryOp \<Rightarrow> string option) \<Rightarrow> 'n CodegenEnv \<Rightarrow> 'n Expr \<Rightarrow> error + string" where
  "acceptExprWith opMap env (LiteralExpr loc (StringLiteral v) ts) = Inr (quoted v)"
| "acceptExprWith opMap env (LiteralExpr loc (NumberLiteral v) ts) = Inr (numberText env v)"
| "acceptExprWith opMap env (VarRefExpr loc n ts vt vs) =
     Inr (''ctx.localVars['' @ quoted n @ '']'')"
| "acceptExprWith opMap env (FnCallExpr loc n args ts) =
     Inl (TypeError ''this.visitFnCallExpr is not a function'')"
| "acceptExprWith opMap env (BinaryOpExpr loc op leftExpr rightExpr ts) =
     (case acceptExprWith opMap env leftExpr of
        Inl err \<Rightarrow> Inl err
      | Inr l \<Rightarrow>
          (case acceptExprWith opMap env rightExpr of
             Inl err \<Rightarrow> Inl err
           | Inr r \<Rightarrow>
               if op = EXP then Inr (''Math.pow('' @ l @ '', '' @ r @ '')'')
               else if op = INTDIV then Inr (''Math.floor('' @ l @ '' / '' @ r @ '')'')
               else Inr (''('' @ l @ '' '' @ binaryOpText op @ '' '' @ r @ '')'')))"
| "acceptExprWith opMap env (UnaryOpExpr loc op rightExpr ts) =
     (case acceptExprWith opMap env rightExpr of
        Inl err \<Rightarrow> Inl err
      | Inr r \<Rightarrow>
          (case opMap op of
             Some opText \<Rightarrow> Inr (''('' @ opText @ r @ '')'')
           | None \<Rightarrow> Inl (TypeError ''Expected a SourceNode, string, or an array'')))"



section \<open>Code generator: statements\<close>

text \<open>The visitors of the statements that hold no statement list.\<close>

definition visitLabelStmt ::
  "'n CodegenEnv \<Rightarrow> 'n CodegenState \<Rightarrow> Loc \<Rightarrow> string \<Rightarrow> error + (string \<times> 'n CodegenState)" where
  "visitLabelStmt env st loc label = generateLabelStmt env st (Some loc) label"

definition visitAssignStmt ::
  "'n CodegenEnv \<Rightarrow> 'n CodegenState \<Rightarrow> Loc \<Rightarrow> 'n Expr \<Rightarrow> 'n Expr
   \<Rightarrow> error + (string \<times> 'n CodegenState)" where
  "visitAssignStmt env st loc targetExpr valueExpr =
     createStmtSourceNode env st loc
       (case acceptExpr env targetExpr of
          Inl err \<Rightarrow> Inl err
        | Inr t \<Rightarrow>
            (case acceptExpr env valueExpr of
               Inl err \<Rightarrow> Inl err
             | Inr v \<Rightarrow> Inr (t @ '' = '' @ v @ '';'')))"

definition visitGotoStmt ::
  "'n CodegenEnv \<Rightarrow> 'n CodegenState \<Rightarrow> Loc \<Rightarrow> string \<Rightarrow> error + (string \<times> 'n CodegenState)" where
  "visitGotoStmt env st loc destLabel =
     createStmtSourceNode env st loc (Inr (generateGotoCode destLabel))"

definition visitExitLoopStmt ::
  "'n CodegenEnv \<Rightarrow> 'n CodegenState \<Rightarrow> Loc \<Rightarrow> error + (string \<times> 'n CodegenState)" where
  "visitExitLoopStmt env st loc =
     (case openLoopStmtStates st of
        [] \<Rightarrow> Inl (CodegenError ''EXIT DO statement outside DO loop'' loc)
      | innermost # others \<Rightarrow>
          createStmtSourceNode env st loc (Inr (generateGotoCode innermost)))"

definition forInitCode :: "'n CodegenEnv \<Rightarrow> 'n ForStmtNode \<Rightarrow> string \<Rightarrow> string \<Rightarrow> error + string" where
  "forInitCode env node stepV endV =
     (case acceptExpr env (counterExpr node) of
        Inl err \<Rightarrow> Inl err
      | Inr c \<Rightarrow>
     (case acceptExpr env (startExpr node) of
        Inl err \<Rightarrow> Inl err
      | Inr s \<Rightarrow>
     (case (case stepExpr node of Some e \<Rightarrow> acceptExpr env e | None \<Rightarrow> Inr ''1'') of
        Inl err \<Rightarrow> Inl err
      | Inr stp \<Rightarrow>
     (case acceptExpr env (endExpr node) of
        Inl err \<Rightarrow> Inl err
      | Inr e \<Rightarrow>
          Inr (c @ '' = '' @ s @ ''; '' @ stepV @ '' = '' @ stp @ ''; '' @ endV @ '' = '' @ e @ '';'')))))"

definition forGuardCode ::
  "'n CodegenEnv \<Rightarrow> 'n ForStmtNode \<Rightarrow> string \<Rightarrow> string \<Rightarrow> string \<Rightarrow> error + string" where
  "forGuardCode env node stepV endV endL =
     (case acceptExpr env (counterExpr node) of
        Inl err \<Rightarrow> Inl err
      | Inr c \<Rightarrow>
          Inr (''const counterValue = '' @ c @ ''; '' @ ''if (''
               @ ''('' @ stepV @ '' >= 0 && counterValue > '' @ endV @ '') || ''
               @ ''('' @ stepV @ '' < 0 && counterValue < '' @ endV @ '')''
               @ '') { '' @ generateGotoCode endL @ '' }''))"

definition visitForStmt ::
  "'n CodegenEnv \<Rightarrow> 'n CodegenState \<Rightarrow> 'n ForStmtNode \<Rightarrow> error + (string \<times> 'n CodegenState)" where
  "visitForStmt env st node =
     (let labelPrefix = fst (generateLabel st);
          st1 = snd (generateLabel st);
          startL = labelPrefix @ ''_loopStart'';
          endL = labelPrefix @ ''_loopEnd'';
          stepV = generateTempVarRef (labelPrefix @ ''_step'');
          endV = generateTempVarRef (labelPrefix @ ''_end'');
          st2 = st1\<lparr>openForStmtStates :=
                  \<lparr>forStmt = node, startLabel = startL, endLabel = endL,
                    stepValue = stepV, endValue = endV\<rparr> # openForStmtStates st1\<rparr>
      in case createStmtSourceNode env st2 (forLoc node) (forInitCode env node stepV endV) of
           Inl err \<Rightarrow> Inl err
         | Inr (a, st3) \<Rightarrow>
        (case generateLabelStmt env st3 (Some (forLoc node)) startL of
           Inl err \<Rightarrow> Inl err
         | Inr (b, st4) \<Rightarrow>
        (case createStmtSourceNode env (st4\<lparr>indent := indent st4 + 1\<rparr>) (forLoc node)
                (forGuardCode env node stepV endV endL) of
           Inl err \<Rightarrow> Inl err
         | Inr (c, st5) \<Rightarrow> Inr (a @ b @ c, st5))))"

text \<open>
  \<open>visitNextStmt\<close>: the number of frames to close, the check against the number of
  open frames, the comparison of each named counter's generated text with that of the
  frame \<open>i\<close> places below the top, and the loop that pops and closes the frames.
\<close>

fun verifyCounters ::
  "'n CodegenEnv \<Rightarrow> Loc \<Rightarrow> nat \<Rightarrow> 'n Expr list \<Rightarrow> 'n ForStmtState list \<Rightarrow> error option" where
  "verifyCounters env loc i [] frames = None"
| "verifyCounters env loc i (c # cs) [] =
     (case acceptExpr env c of
        Inl err \<Rightarrow> Some err
      | Inr nextCounterExprString \<Rightarrow> Some (TypeError ''Cannot destructure undefined''))"
| "verifyCounters env loc i (c # cs) (frame # frames) =
     (case acceptExpr env c of
        Inl err \<Rightarrow> Some err
      | Inr nextCounterExprString \<Rightarrow>
          (case acceptExpr env (counterExpr (forStmt frame)) of
             Inl err \<Rightarrow> Some err
           | Inr forStmtCounterExprString \<Rightarrow>
               if nextCounterExprString \<noteq> forStmtCounterExprString then
                 Some (CodegenError
                   (''Counter #'' @ showNat (i + 1) @ '' does not match corresponding FOR statement'')
                   loc)
               else verifyCounters env loc (i + 1) cs frames))"

definition nextIncrementCode :: "'n CodegenEnv \<Rightarrow> 'n ForStmtState \<Rightarrow> error + string" where
  "nextIncrementCode env frame =
     (case acceptExpr env (counterExpr (forStmt frame)) of
        Inl err \<Rightarrow> Inl err
      | Inr c \<Rightarrow>
          Inr (c @ '' += '' @ stepValue frame @ ''; '' @ generateGotoCode (startLabel frame)))"

definition releaseTempsCode :: "'n ForStmtState \<Rightarrow> string" where
  "releaseTempsCode frame =
     ''delete '' @ stepValue frame @ ''; delete '' @ endValue frame @ '';''"

fun closeForStmts ::
  "'n CodegenEnv \<Rightarrow> 'n CodegenState \<Rightarrow> Loc \<Rightarrow> nat \<Rightarrow> error + (string \<times> 'n CodegenState)" where
  "closeForStmts env st loc 0 = Inr ([], st)"
| "closeForStmts env st loc (Suc k) =
     (case openForStmtStates st of
        [] \<Rightarrow> Inl (TypeError ''Cannot destructure undefined'')
      | frame # frames \<Rightarrow>
     (case createStmtSourceNode env (st\<lparr>openForStmtStates := frames\<rparr>) loc
             (nextIncrementCode env frame) of
        Inl err \<Rightarrow> Inl err
      | Inr (a, st1) \<Rightarrow>
     (case generateLabelStmt env (st1\<lparr>indent := indent st1 - 1\<rparr>)
             (Some (forLoc (forStmt frame))) (endLabel frame) of
        Inl err \<Rightarrow> Inl err
      | Inr (b, st2) \<Rightarrow>
     (case createStmtSourceNode env st2 (forLoc (forStmt frame)) (Inr (releaseTempsCode frame)) of
        Inl err \<Rightarrow> Inl err
      | Inr (c, st3) \<Rightarrow>
     (case closeForStmts env st3 loc k of
        Inl err \<Rightarrow> Inl err
      | Inr (restCode, st4) \<Rightarrow> Inr (a @ b @ c @ restCode, st4))))))"

definition numForStmtStatesToClose :: "'n Expr list \<Rightarrow> nat" where
  "numForStmtStatesToClose counterExprs =
     (if length counterExprs = 0 then 1 else length counterExprs)"

definition visitNextStmt ::
  "'n CodegenEnv \<Rightarrow> 'n CodegenState \<Rightarrow> Loc \<Rightarrow> 'n Expr list
   \<Rightarrow> error + (string \<times> 'n CodegenState)" where
  "visitNextStmt env st loc counterExprs =
     (if numForStmtStatesToClose counterExprs > length (openForStmtStates st) then
        Inl (CodegenError ''NEXT statement without corresponding FOR statement'' loc)
      else
        (case verifyCounters env loc 0 counterExprs (openForStmtStates st) of
           Some err \<Rightarrow> Inl err
         | None \<Rightarrow> closeForStmts env st loc (numForStmtStatesToClose counterExprs)))"

definition visitExitForStmt ::
  "'n CodegenEnv \<Rightarrow> 'n CodegenState \<Rightarrow> Loc \<Rightarrow> error + (string \<times> 'n CodegenState)" where
  "visitExitForStmt env st loc =
     (case openForStmtStates st of
        [] \<Rightarrow> Inl (CodegenError ''EXIT FOR statement outside FOR loop'' loc)
      | frame # frames \<Rightarrow> createStmtSourceNode env st loc (Inr (generateGotoCode (endLabel frame))))"

definition visitGosubStmt ::
  "'n CodegenEnv \<Rightarrow> 'n CodegenState \<Rightarrow> Loc \<Rightarrow> string \<Rightarrow> error + (string \<times> 'n CodegenState)" where
  "visitGosubStmt env st loc destLabel =
     createStmtSourceNode env st loc
       (Inr (''return { type: '' @ quoted directiveGOSUB @ '', destLabel: '' @ quoted destLabel
             @ '' };''))"

definition visitReturnStmt ::
  "'n CodegenEnv \<Rightarrow> 'n CodegenState \<Rightarrow> Loc \<Rightarrow> string option
   \<Rightarrow> error + (string \<times> 'n CodegenState)" where
  "visitReturnStmt env st loc destLabel =
     createStmtSourceNode env st loc
       (Inr (''return { type: '' @ quoted directiveRETURN
             @ (case destLabel of
                  Some d \<Rightarrow> if d \<noteq> [] then '', destLabel: '' @ quoted d else []
                | None \<Rightarrow> [])
             @ '' };''))"

definition visitEndStmt ::
  "'n CodegenEnv \<Rightarrow> 'n CodegenState \<Rightarrow> Loc \<Rightarrow> error + (string \<times> 'n CodegenState)" where
  "visitEndStmt env st loc =
     createStmtSourceNode env st loc (Inr (''return { type: '' @ quoted directiveEND @ '' };''))"

fun printArgsCode :: "'n CodegenEnv \<Rightarrow> 'n PrintStmtArg list \<Rightarrow> error + string" where
  "printArgsCode env [] = Inr []"
| "printArgsCode env (PrintSeparator arg # args) =
     (case printArgsCode env args of
        Inl err \<Rightarrow> Inl err
      | Inr restCode \<Rightarrow> Inr (''{ type: '' @ quoted arg @ '' },'' @ restCode))"
| "printArgsCode env (PrintExpr arg # args) =
     (case acceptExpr env arg of
        Inl err \<Rightarrow> Inl err
      | Inr v \<Rightarrow>
          (case printArgsCode env args of
             Inl err \<Rightarrow> Inl err
           | Inr restCode \<Rightarrow>
               Inr (''{ type: '' @ quoted printArgVALUE @ '', value: '' @ v @ '' },'' @ restCode)))"

definition visitPrintStmt ::
  "'n CodegenEnv \<Rightarrow> 'n CodegenState \<Rightarrow> Loc \<Rightarrow> 'n PrintStmtArg list
   \<Rightarrow> error + (string \<times> 'n CodegenState)" where
  "visitPrintStmt env st loc args =
     createStmtSourceNode env st loc
       (case printArgsCode env args of
          Inl err \<Rightarrow> Inl err
        | Inr code \<Rightarrow> Inr (''ctx.runtime.print('' @ code @ '');''))"

fun joinWith :: "string \<Rightarrow> string list \<Rightarrow> string" where
  "joinWith sep [] = []"
| "joinWith sep [x] = x"
| "joinWith sep (x # xs) = x @ sep @ joinWith sep xs"

fun inputTargetsCode :: "'n CodegenEnv \<Rightarrow> nat \<Rightarrow> 'n Expr list \<Rightarrow> error + string" where
  "inputTargetsCode env i [] = Inr []"
| "inputTargetsCode env i (e # es) =
     (case acceptExpr env e of
        Inl err \<Rightarrow> Inl err
      | Inr t \<Rightarrow>
          (case inputTargetsCode env (i + 1) es of
             Inl err \<Rightarrow> Inl err
           | Inr restCode \<Rightarrow> Inr (t @ '' = results['' @ showNat i @ '']; '' @ restCode)))"

definition visitInputStmt ::
  "'n CodegenEnv \<Rightarrow> 'n CodegenState \<Rightarrow> Loc \<Rightarrow> string \<Rightarrow> 'n Expr list
   \<Rightarrow> error + (string \<times> 'n CodegenState)" where
  "visitInputStmt env st loc prompt targetExprs =
     createStmtSourceNode env st loc
       (case inputTargetsCode env 0 targetExprs of
          Inl err \<Rightarrow> Inl err
        | Inr targets \<Rightarrow>
            Inr (''const results = await ctx.runtime.input(''
                 @ stringifyString env prompt @ '', ''
                 @ joinWith '', ''
                     (map (\<lambda>e. case exprTypeSpec e of
                                  Some t \<Rightarrow> stringifyTypeSpec env t
                                | None \<Rightarrow> [])
                        targetExprs)
                 @ ''); '' @ targets))"

text \<open>
  The check that closes \<open>visitStmts\<close>: more open FOR frames after the statements than
  before them raise the error, at the innermost open FOR.
\<close>

definition checkForStmtsClosed ::
  "nat \<Rightarrow> error + (string \<times> 'n CodegenState) \<Rightarrow> error + (string \<times> 'n CodegenState)" where
  "checkForStmtsClosed origOpenForStmtStatesLength r =
     (case r of
        Inl err \<Rightarrow> Inl err
      | Inr (code, st) \<Rightarrow>
          if length (openForStmtStates st) > origOpenForStmtStatesLength then
            Inl (CodegenError ''FOR statement without corresponding NEXT statement''
                   (forLoc (forStmt (hd (openForStmtStates st)))))
          else Inr (code, st))"

text \<open>
  The labels of \<open>visitIfStmt\<close>: one for each branch after the first, one for the else
  branch if there is one, and the end label; each with the node whose position the
  label statement carries (the first statement of the branch, if it has one).
\<close>

definition firstStmtLoc :: "'n Stmt list \<Rightarrow> Loc option" where
  "firstStmtLoc stmts = (case stmts of [] \<Rightarrow> None | s # others \<Rightarrow> Some (stmtLoc s))"

definition ifBranchLabels ::
  "string \<Rightarrow> ('n Expr \<times> 'n Stmt list) list \<Rightarrow> 'n Stmt list \<Rightarrow> (Loc option \<times> string) list" where
  "ifBranchLabels branchLabelPrefix ifBranches elseBranch =
     map (\<lambda>i. (firstStmtLoc (snd (ifBranches ! i)), branchLabelPrefix @ ''_elif'' @ showNat i))
       [1 ..< length ifBranches]
     @ (if length elseBranch > 0 then [(firstStmtLoc elseBranch, branchLabelPrefix @ ''_else'')]
        else [])
     @ [(None, branchLabelPrefix @ ''_endif'')]"

text \<open>
  The dispatch of \<open>accept\<close> on a statement, \<open>acceptAll\<close> on a statement list, and the
  loop of \<open>visitIfStmt\<close> over the branches. The call \<open>visitStmts(stmts)\<close> of the
  source is \<open>acceptAll\<close> followed by the check above.
\<close>

fun acceptStmt ::
    "'n CodegenEnv \<Rightarrow> 'n CodegenState \<Rightarrow> 'n Stmt \<Rightarrow> error + (string \<times> 'n CodegenState)"
  and acceptAllStmts ::
    "'n CodegenEnv \<Rightarrow> 'n CodegenState \<Rightarrow> 'n Stmt list \<Rightarrow> error + (string \<times> 'n CodegenState)"
  and visitIfBranches ::
    "'n CodegenEnv \<Rightarrow> 'n CodegenState \<Rightarrow> ('n Expr \<times> 'n Stmt list) list
     \<Rightarrow> (Loc option \<times> string) list \<Rightarrow> string \<Rightarrow> error + (string \<times> 'n CodegenState)"
where
  "acceptStmt env st (LabelStmt loc label) = visitLabelStmt env st loc label"
| "acceptStmt env st (AssignStmt loc targetExpr valueExpr) =
     visitAssignStmt env st loc targetExpr valueExpr"
| "acceptStmt env st (GotoStmt loc destLabel) = visitGotoStmt env st loc destLabel"
| "acceptStmt env st (IfStmt loc ifBranches elseBranch) =
     (case visitIfBranches env (snd (generateLabel st)) ifBranches
             (ifBranchLabels (fst (generateLabel st)) ifBranches elseBranch)
             (fst (generateLabel st) @ ''_endif'') of
        Inl err \<Rightarrow> Inl err
      | Inr (a, st1) \<Rightarrow>
          if length elseBranch > 0 then
            (case checkForStmtsClosed (length (openForStmtStates st1))
                    (acceptAllStmts env (st1\<lparr>indent := indent st1 + 1\<rparr>) elseBranch) of
               Inl err \<Rightarrow> Inl err
             | Inr (b, st2) \<Rightarrow>
                 (case generateLabelStmt env (st2\<lparr>indent := indent st2 - 1\<rparr>) None
                         (fst (generateLabel st) @ ''_endif'') of
                    Inl err \<Rightarrow> Inl err
                  | Inr (c, st3) \<Rightarrow> Inr (a @ b @ c, st3)))
          else Inr (a, st1))"
| "acceptStmt env st (CondLoopStmt loc structure isCondNegated condExpr stmts) =
     (case acceptExpr env condExpr of
        Inl err \<Rightarrow> Inl err
      | Inr cond \<Rightarrow>
     (case createStmtSourceNode env (snd (generateLabel st)) loc
             (Inr (''if ('' @ (if isCondNegated then cond else ''!('' @ cond @ '')'')
                   @ '') { '' @ generateGotoCode (fst (generateLabel st) @ ''_loopEnd'') @ '' }'')) of
        Inl err \<Rightarrow> Inl err
      | Inr (condStmt, st1) \<Rightarrow>
     (case checkForStmtsClosed (length (openForStmtStates st1))
             (acceptAllStmts env
                (st1\<lparr>indent := indent st1 + 1,
                     openLoopStmtStates :=
                       (fst (generateLabel st) @ ''_loopEnd'') # openLoopStmtStates st1\<rparr>)
                stmts) of
        Inl err \<Rightarrow> Inl err
      | Inr (body, st2) \<Rightarrow>
     (case generateLabelStmt env
             (st2\<lparr>openLoopStmtStates := tl (openLoopStmtStates st2), indent := indent st2 - 1\<rparr>)
             (Some loc) (fst (generateLabel st) @ ''_loopStart'') of
        Inl err \<Rightarrow> Inl err
      | Inr (a, st3) \<Rightarrow>
     (case createStmtSourceNode env st3 loc
             (Inr (generateGotoCode (fst (generateLabel st) @ ''_loopStart''))) of
        Inl err \<Rightarrow> Inl err
      | Inr (g, st4) \<Rightarrow>
     (case generateLabelStmt env st4 (Some loc) (fst (generateLabel st) @ ''_loopEnd'') of
        Inl err \<Rightarrow> Inl err
      | Inr (z, st5) \<Rightarrow>
          Inr (a @ (case structure of
                      COND_EXPR_BEFORE_STMTS \<Rightarrow> condStmt @ body
                    | COND_EXPR_AFTER_STMTS \<Rightarrow> body @ condStmt)
               @ g @ z, st5)))))))"
| "acceptStmt env st (UncondLoopStmt loc stmts) =
     (case generateLabelStmt env (snd (generateLabel st)) (Some loc)
             (fst (generateLabel st) @ ''_loopStart'') of
        Inl err \<Rightarrow> Inl err
      | Inr (a, st1) \<Rightarrow>
     (case checkForStmtsClosed (length (openForStmtStates st1))
             (acceptAllStmts env
                (st1\<lparr>indent := indent st1 + 1,
                     openLoopStmtStates :=
                       (fst (generateLabel st) @ ''_loopEnd'') # openLoopStmtStates st1\<rparr>)
                stmts) of
        Inl err \<Rightarrow> Inl err
      | Inr (body, st2) \<Rightarrow>
     (case createStmtSourceNode env
             (st2\<lparr>openLoopStmtStates := tl (openLoopStmtStates st2), indent := indent st2 - 1\<rparr>)
             loc (Inr (generateGotoCode (fst (generateLabel st) @ ''_loopStart''))) of
        Inl err \<Rightarrow> Inl err
      | Inr (g, st3) \<Rightarrow>
     (case generateLabelStmt env st3 (Some loc) (fst (generateLabel st) @ ''_loopEnd'') of
        Inl err \<Rightarrow> Inl err
      | Inr (z, st4) \<Rightarrow> Inr (a @ body @ g @ z, st4)))))"
| "acceptStmt env st (ExitLoopStmt loc) = visitExitLoopStmt env st loc"
| "acceptStmt env st (ForStmt node) = visitForStmt env st node"
| "acceptStmt env st (NextStmt loc counterExprs) = visitNextStmt env st loc counterExprs"
| "acceptStmt env st (ExitForStmt loc) = visitExitForStmt env st loc"
| "acceptStmt env st (GosubStmt loc destLabel) = visitGosubStmt env st loc destLabel"
| "acceptStmt env st (ReturnStmt loc destLabel) = visitReturnStmt env st loc destLabel"
| "acceptStmt env st (EndStmt loc) = visitEndStmt env st loc"
| "acceptStmt env st (PrintStmt loc args) = visitPrintStmt env st loc args"
| "acceptStmt env st (InputStmt loc prompt targetExprs) =
     visitInputStmt env st loc prompt targetExprs"
| "acceptAllStmts env st [] = Inr ([], st)"
| "acceptAllStmts env st (s # stmts) =
     (case acceptStmt env st s of
        Inl err \<Rightarrow> Inl err
      | Inr (a, st1) \<Rightarrow>
          (case acceptAllStmts env st1 stmts of
             Inl err \<Rightarrow> Inl err
           | Inr (restCode, st2) \<Rightarrow> Inr (a @ restCode, st2)))"
| "visitIfBranches env st [] branchLabels endIfLabel = Inr ([], st)"
| "visitIfBranches env st (branch # branches) branchLabels endIfLabel =
     (case branchLabels of
        [] \<Rightarrow> Inl (TypeError ''Cannot destructure undefined'')
      | nextBranch # laterLabels \<Rightarrow>
     (case createStmtSourceNode env st (exprLoc (fst branch))
             (case acceptExpr env (fst branch) of
                Inl err \<Rightarrow> Inl err
              | Inr cond \<Rightarrow>
                  Inr (''if (!('' @ cond @ '')) { '' @ generateGotoCode (snd nextBranch) @ '' }'')) of
        Inl err \<Rightarrow> Inl err
      | Inr (a, st1) \<Rightarrow>
     (case checkForStmtsClosed (length (openForStmtStates st1))
             (acceptAllStmts env (st1\<lparr>indent := indent st1 + 1\<rparr>) (snd branch)) of
        Inl err \<Rightarrow> Inl err
      | Inr (b, st2) \<Rightarrow>
     (case (if laterLabels \<noteq> []
            then createStmtSourceNode env st2 (exprLoc (fst branch))
                   (Inr (generateGotoCode endIfLabel))
            else Inr ([], st2)) of
        Inl err \<Rightarrow> Inl err
      | Inr (c, st3) \<Rightarrow>
     (case generateLabelStmt env (st3\<lparr>indent := indent st3 - 1\<rparr>)
             (fst nextBranch) (snd nextBranch) of
        Inl err \<Rightarrow> Inl err
      | Inr (d, st4) \<Rightarrow>
     (case visitIfBranches env st4 branches laterLabels endIfLabel of
        Inl err \<Rightarrow> Inl err
      | Inr (restCode, st5) \<Rightarrow> Inr (a @ b @ c @ d @ restCode, st5)))))))"

definition visitStmts ::
  "'n CodegenEnv \<Rightarrow> 'n CodegenState \<Rightarrow> 'n Stmt list \<Rightarrow> error + (string \<times> 'n CodegenState)" where
  "visitStmts env st stmts =
     checkForStmtsClosed (length (openForStmtStates st)) (acceptAllStmts env st stmts)"

text \<open>
  Modelled from the spec: a function procedure and a module as the generator reads
  them (section 3, "Module"). \<open>visitFnProc\<close> and \<open>visitModule\<close> wrap the statements
  of a procedure and of the module; the generator starts on a module with both stacks
  empty and the label counter at 1.
\<close>

record 'n FnProc =
  fnProcLoc :: Loc
  fnProcName :: string
  fnProcStmts :: "'n Stmt list"

record 'n Module =
  moduleStmts :: "'n Stmt list"
  moduleProcs :: "'n FnProc list"

definition visitFnProc ::
  "'n CodegenEnv \<Rightarrow> 'n CodegenState \<Rightarrow> 'n FnProc \<Rightarrow> error + (string \<times> 'n CodegenState)" where
  "visitFnProc env st node =
     (case lines env st
             [Ln ''{'', Shift 1, Ln (generateLoc (fnProcLoc node)),
              Ln (''type: '' @ quoted compiledProcFN @ '',''),
              Ln (''name: '' @ quoted (fnProcName node) @ '',''), Ln ''stmts: ['', Ln [], Shift 1] of
        Inl err \<Rightarrow> Inl err
      | Inr (a, st1) \<Rightarrow>
     (case visitStmts env st1 (fnProcStmts node) of
        Inl err \<Rightarrow> Inl err
      | Inr (b, st2) \<Rightarrow>
     (case lines env st2 [Shift (- 1), Ln ''],'', Shift (- 1), Ln ''},'', Ln []] of
        Inl err \<Rightarrow> Inl err
      | Inr (c, st3) \<Rightarrow> Inr (a @ b @ c, st3))))"

fun acceptAllProcs ::
  "'n CodegenEnv \<Rightarrow> 'n CodegenState \<Rightarrow> 'n FnProc list \<Rightarrow> error + (string \<times> 'n CodegenState)" where
  "acceptAllProcs env st [] = Inr ([], st)"
| "acceptAllProcs env st (p # ps) =
     (case visitFnProc env st p of
        Inl err \<Rightarrow> Inl err
      | Inr (a, st1) \<Rightarrow>
          (case acceptAllProcs env st1 ps of
             Inl err \<Rightarrow> Inl err
           | Inr (restCode, st2) \<Rightarrow> Inr (a @ restCode, st2)))"

definition visitModule ::
  "'n CodegenEnv \<Rightarrow> 'n CodegenState \<Rightarrow> 'n Module \<Rightarrow> error + (string \<times> 'n CodegenState)" where
  "visitModule env st m =
     (case lines env (st\<lparr>indent := 0\<rparr>)
             [Ln ''const compiledModule = {'', Shift 1,
              Ln (''sourceFileName: '' @ stringifyString env (sourceFileName env) @ '',''), Ln []] of
        Inl err \<Rightarrow> Inl err
      | Inr (a, st1) \<Rightarrow>
     (case lines env st1 [Ln ''stmts: ['', Ln [], Shift 1] of
        Inl err \<Rightarrow> Inl err
      | Inr (b, st2) \<Rightarrow>
     (case visitStmts env st2 (moduleStmts m) of
        Inl err \<Rightarrow> Inl err
      | Inr (c, st3) \<Rightarrow>
     (case lines env st3 [Shift (- 1), Ln ''],'', Ln []] of
        Inl err \<Rightarrow> Inl err
      | Inr (d, st4) \<Rightarrow>
     (case lines env st4 [Ln ''procs: ['', Ln [], Shift 1] of
        Inl err \<Rightarrow> Inl err
      | Inr (e, st5) \<Rightarrow>
     (case acceptAllProcs env st5 (moduleProcs m) of
        Inl err \<Rightarrow> Inl err
      | Inr (f, st6) \<Rightarrow>
     (case lines env st6 [Shift (- 1), Ln ''],'', Ln []] of
        Inl err \<Rightarrow> Inl err
      | Inr (g, st7) \<Rightarrow>
     (case lines env st7 [Shift (- 1), Ln ''};'', Ln []] of
        Inl err \<Rightarrow> Inl err
      | Inr (h, st8) \<Rightarrow> Inr (a @ b @ c @ d @ e @ f @ g @ h, st8)))))))))"

definition initialCodegenState :: "'n CodegenState" where
  "initialCodegenState =
     \<lparr>openForStmtStates = [], openLoopStmtStates = [], indent = 0, nextGeneratedLabelIdx = 1\<rparr>"

definition generateModule :: "'n CodegenEnv \<Rightarrow> 'n Module \<Rightarrow> error + string" where
  "generateModule env m =
     (case visitModule env initialCodegenState m of
        Inl err \<Rightarrow> Inl err
      | Inr (code, st) \<Rightarrow> Inr code)"

text \<open>An environment for the worked examples, over the whole numbers above.\<close>

definition exampleEnv :: "int option CodegenEnv" where
  "exampleEnv =
     \<lparr>indentWidth = 4, sourceFileName = ''test.bas'', numberText = showWhole,
       stringifyString = (\<lambda>s. [dquote] @ s @ [dquote]),
       stringifyTypeSpec = (\<lambda>t. ''{}'')\<rparr>"

text \<open>
  For the claims about \<open>NEXT\<close>, the text of the generated statements written out: a
  runnable statement and a label statement at a given indentation level, and what
  closing one FOR frame emits there: the increment of the counter with the jump to the
  loop start, the label of the loop end one level out, and the statement that deletes
  the two temporaries.
\<close>

definition pad :: "'n CodegenEnv \<Rightarrow> int \<Rightarrow> string" where
  "pad env ind = replicate (indentWidth env * nat ind) CHR '' ''"

definition stmtText :: "'n CodegenEnv \<Rightarrow> int \<Rightarrow> Loc \<Rightarrow> string \<Rightarrow> string" where
  "stmtText env ind loc code =
     pad env ind @ ''{'' @ [newline]
     @ pad env (ind + 1) @ generateLoc loc @ [newline]
     @ pad env (ind + 1) @ ''async run(ctx) { '' @ code @ '' },'' @ [newline]
     @ pad env ind @ ''},'' @ [newline]"

definition labelText :: "'n CodegenEnv \<Rightarrow> int \<Rightarrow> Loc \<Rightarrow> string \<Rightarrow> string" where
  "labelText env ind loc label =
     pad env ind @ ''{'' @ [newline]
     @ pad env (ind + 1) @ generateLoc loc @ [newline]
     @ pad env (ind + 1) @ ''label: '' @ quoted label @ '','' @ [newline]
     @ pad env ind @ ''},'' @ [newline]"

definition exprText :: "'n CodegenEnv \<Rightarrow> 'n Expr \<Rightarrow> string" where
  "exprText env e = (case acceptExpr env e of Inl err \<Rightarrow> [] | Inr t \<Rightarrow> t)"

definition generates :: "'n CodegenEnv \<Rightarrow> 'n Expr \<Rightarrow> bool" where
  "generates env e = (\<not> isl (acceptExpr env e))"

definition closeText :: "'n CodegenEnv \<Rightarrow> int \<Rightarrow> Loc \<Rightarrow> 'n ForStmtState \<Rightarrow> string" where
  "closeText env ind loc frame =
     stmtText env ind loc
       (exprText env (counterExpr (forStmt frame)) @ '' += '' @ stepValue frame @ ''; ''
        @ generateGotoCode (startLabel frame))
     @ labelText env (ind - 1) (forLoc (forStmt frame)) (endLabel frame)
     @ stmtText env (ind - 1) (forLoc (forStmt frame))
         (''delete '' @ stepValue frame @ ''; delete '' @ endValue frame @ '';'')"

fun closeTexts :: "'n CodegenEnv \<Rightarrow> int \<Rightarrow> Loc \<Rightarrow> 'n ForStmtState list \<Rightarrow> string" where
  "closeTexts env ind loc [] = []"
| "closeTexts env ind loc (frame # frames) =
     closeText env ind loc frame @ closeTexts env (ind - 1) loc frames"

definition countersMatch :: "'n CodegenEnv \<Rightarrow> 'n Expr list \<Rightarrow> 'n ForStmtState list \<Rightarrow> bool" where
  "countersMatch env counterExprs frames =
     list_all (\<lambda>p. exprText env (fst p) = exprText env (counterExpr (forStmt (snd p))))
       (zip counterExprs frames)"

text \<open>
  Nodes for the worked examples: the variable \<open>n\<close> referred to on a line, the statement
  \<open>FOR n = 1 TO 3\<close> on a line, and the frame that statement leaves on the stack when
  it takes the label stem \<open>$idx\<close>.
\<close>

definition exampleVar :: "string \<Rightarrow> nat \<Rightarrow> int option Expr" where
  "exampleVar n ln = VarRefExpr (Loc ln 5) n None None None"

definition exampleForNode :: "string \<Rightarrow> nat \<Rightarrow> int option ForStmtNode" where
  "exampleForNode n ln =
     \<lparr>forLoc = Loc ln 1, counterExpr = exampleVar n ln,
       startExpr = LiteralExpr (Loc ln 9) (NumberLiteral (Some 1)) None,
       endExpr = LiteralExpr (Loc ln 14) (NumberLiteral (Some 3)) None,
       stepExpr = None\<rparr>"

definition exampleFrame :: "string \<Rightarrow> nat \<Rightarrow> nat \<Rightarrow> int option ForStmtState" where
  "exampleFrame n ln idx =
     \<lparr>forStmt = exampleForNode n ln,
       startLabel = ''$'' @ showNat idx @ ''_loopStart'',
       endLabel = ''$'' @ showNat idx @ ''_loopEnd'',
       stepValue = generateTempVarRef (''$'' @ showNat idx @ ''_step''),
       endValue = generateTempVarRef (''$'' @ showNat idx @ ''_end'')\<rparr>"



section \<open>Properties of the numeric coercion\<close>

lemma matchingRule_numeric:
  "isNumericType a \<Longrightarrow> isNumericType b \<Longrightarrow>
   \<exists>r. matchingRule a b = Some r \<and> snd r = widerType a b"
  by (cases a; cases b) (simp_all add: matchingRule_def RULES_def widerType_def)

lemma isNumericType_widerType:
  "isNumericType a \<Longrightarrow> isNumericType b \<Longrightarrow> isNumericType (widerType a b)"
  by (simp add: widerType_def)

lemma widerType_assoc:
  "widerType (widerType a b) c = widerType a (widerType b c)"
  by (simp add: widerType_def)

lemma coerceLoop_numeric:
  "isNumericType r \<Longrightarrow> list_all isNumericType ts \<Longrightarrow>
   coerceLoop r ts = Inr (foldl widerType r ts)"
proof (induction ts arbitrary: r)
  case Nil
  then show ?case by simp
next
  case (Cons t ts)
  from Cons.prems obtain rule where
    rule: "matchingRule r t = Some rule" "snd rule = widerType r t"
    using matchingRule_numeric [of r t] by auto
  have "isNumericType (widerType r t)"
    using Cons.prems by (simp add: isNumericType_widerType)
  with Cons.IH [of "widerType r t"] Cons.prems rule show ?case by simp
qed

lemma coerceNumericTypes_fold:
  "isNumeric (t0 # ts) \<Longrightarrow> coerceNumericTypes (t0 # ts) = Inr (foldl widerType t0 ts)"
  by (simp add: coerceNumericTypes_def isNumeric_def coerceLoop_numeric)

lemma foldl_widerType_numeric:
  "isNumericType r \<Longrightarrow> list_all isNumericType ts \<Longrightarrow> isNumericType (foldl widerType r ts)"
  by (induction ts arbitrary: r) (simp_all add: isNumericType_widerType)

lemma foldl_widerType_shift:
  "foldl widerType (widerType a b) ts = widerType a (foldl widerType b ts)"
  by (induction ts arbitrary: b) (simp_all add: widerType_assoc)

text \<open>
  C1. For every pair of numeric elementary types, \<open>coerceNumericTypes\<close> returns (and
  does not throw) the wider of the two in the ordering Integer < Long < Single < Double;
  in particular Integer with Single and Long with Single give Single, and any numeric
  type with Double, in either position, gives Double.
\<close>

theorem coerceNumericTypes_wider:
  "isNumeric [a, b] \<Longrightarrow>
     coerceNumericTypes [a, b] = Inr (widerType a b)
   \<and> (a = integerSpec \<and> b = singleSpec \<longrightarrow> coerceNumericTypes [a, b] = Inr singleSpec)
   \<and> (a = longSpec \<and> b = singleSpec \<longrightarrow> coerceNumericTypes [a, b] = Inr singleSpec)
   \<and> (a = doubleSpec \<or> b = doubleSpec \<longrightarrow> coerceNumericTypes [a, b] = Inr doubleSpec)"
proof -
  assume num: "isNumeric [a, b]"
  then have eq: "coerceNumericTypes [a, b] = Inr (widerType a b)"
    by (simp add: coerceNumericTypes_fold)
  have d: "a = doubleSpec \<or> b = doubleSpec \<Longrightarrow> widerType a b = doubleSpec"
    using num by (cases a; cases b) (simp_all add: widerType_def isNumeric_def)
  show ?thesis using eq d by (auto simp: widerType_def)
qed

theorem coerceNumericTypes_wider_witness:
  "isNumeric [longSpec, singleSpec]
   \<and> coerceNumericTypes [longSpec, singleSpec] = Inr singleSpec
   \<and> widerType longSpec singleSpec = singleSpec"
  using coerceNumericTypes_wider [of longSpec singleSpec]
  by (simp add: isNumeric_def widerType_def)

lemma coerceNumericTypes_split:
  assumes nx: "isNumeric (x # xs)" and ny: "isNumeric (y # ys)"
  shows "\<exists>rx ry r. coerceNumericTypes (x # xs) = Inr rx
        \<and> coerceNumericTypes (y # ys) = Inr ry
        \<and> coerceNumericTypes [rx, ry] = Inr r
        \<and> coerceNumericTypes ((x # xs) @ (y # ys)) = Inr r"
proof -
  let ?rx = "foldl widerType x xs" and ?ry = "foldl widerType y ys"
  have rx: "coerceNumericTypes (x # xs) = Inr ?rx"
    using nx by (simp add: coerceNumericTypes_fold)
  have ry: "coerceNumericTypes (y # ys) = Inr ?ry"
    using ny by (simp add: coerceNumericTypes_fold)
  have nrx: "isNumericType ?rx" and nry: "isNumericType ?ry"
    using nx ny by (simp_all add: isNumeric_def foldl_widerType_numeric)
  have two: "coerceNumericTypes [?rx, ?ry] = Inr (widerType ?rx ?ry)"
    using nrx nry by (simp add: coerceNumericTypes_fold isNumeric_def)
  have "isNumeric (x # xs @ y # ys)"
    using nx ny by (simp add: isNumeric_def)
  then have whole: "coerceNumericTypes ((x # xs) @ (y # ys))
      = Inr (foldl widerType x (xs @ y # ys))"
    by (simp add: coerceNumericTypes_fold)
  have "foldl widerType x (xs @ y # ys) = widerType ?rx ?ry"
    by (simp add: foldl_widerType_shift)
  with rx ry two whole show ?thesis by simp
qed

text \<open>
  C8. The pairwise coercion is associative on the numeric types: coercing \<open>a\<close> with
  \<open>b\<close> and the result with \<open>c\<close> gives the same type as coercing \<open>a\<close> with the
  coercion of \<open>b\<close> and \<open>c\<close>; no step throws, and this common type is also what the
  left-to-right loop returns for the three-argument call. (Lemma
  \<open>coerceNumericTypes_split\<close> extends this to a numeric list cut at any place.)
\<close>

theorem coerceNumericTypes_assoc:
  "isNumeric [a, b, c] \<Longrightarrow>
     (\<exists>ab bc r. coerceNumericTypes [a, b] = Inr ab
        \<and> coerceNumericTypes [b, c] = Inr bc
        \<and> coerceNumericTypes [ab, c] = Inr r
        \<and> coerceNumericTypes [a, bc] = Inr r
        \<and> coerceNumericTypes [a, b, c] = Inr r)"
proof -
  assume num: "isNumeric [a, b, c]"
  then have n: "isNumericType a" "isNumericType b" "isNumericType c"
    by (simp_all add: isNumeric_def)
  have ab: "coerceNumericTypes [a, b] = Inr (widerType a b)"
    using n by (simp add: coerceNumericTypes_fold isNumeric_def)
  have bc: "coerceNumericTypes [b, c] = Inr (widerType b c)"
    using n by (simp add: coerceNumericTypes_fold isNumeric_def)
  have l: "coerceNumericTypes [widerType a b, c] = Inr (widerType (widerType a b) c)"
    using n by (simp add: coerceNumericTypes_fold isNumeric_def isNumericType_widerType)
  have r: "coerceNumericTypes [a, widerType b c] = Inr (widerType a (widerType b c))"
    using n by (simp add: coerceNumericTypes_fold isNumeric_def isNumericType_widerType)
  have t: "coerceNumericTypes [a, b, c] = Inr (widerType (widerType a b) c)"
    using num by (simp add: coerceNumericTypes_fold)
  show ?thesis
    using ab bc l r t by (simp add: widerType_assoc)
qed

theorem coerceNumericTypes_assoc_witness:
  "isNumeric [integerSpec, doubleSpec, longSpec]
   \<and> coerceNumericTypes [integerSpec, doubleSpec] = Inr doubleSpec
   \<and> coerceNumericTypes [doubleSpec, longSpec] = Inr doubleSpec
   \<and> coerceNumericTypes [integerSpec, doubleSpec, longSpec] = Inr doubleSpec"
  using coerceNumericTypes_assoc [of integerSpec doubleSpec longSpec]
  by (auto simp: isNumeric_def coerceNumericTypes_def matchingRule_def RULES_def)

section \<open>Properties of the runtime's print\<close>

lemma numPaddingChars_zone:
  "numPaddingChars ln = nextPrintZone (length ln) - length ln"
proof -
  have "length ln div 14 * 14 + length ln mod 14 = length ln" by simp
  then show ?thesis
    unfolding numPaddingChars_def nextPrintZone_def PRINT_ZONE_LENGTH_def by arith
qed

lemma nextPrintZone_least:
  "nextPrintZone c mod 14 = 0 \<and> c < nextPrintZone c \<and> nextPrintZone c \<le> c + 14"
  unfolding nextPrintZone_def by presburger

lemma printLoop_contributions:
  "list_all wellTypedArg args \<Longrightarrow>
   printLoop ops ln args = Inr (ln @ contributions ops (length ln) args)"
proof (induction args arbitrary: ln)
  case Nil
  then show ?case by simp
next
  case (Cons a args)
  then have wt: "list_all wellTypedArg args" by simp
  show ?case
  proof (cases a)
    case SEMICOLON
    then show ?thesis using Cons.IH [OF wt, of ln] by simp
  next
    case COMMA
    then show ?thesis
      using Cons.IH [OF wt, of "ln @ replicate (numPaddingChars ln) CHR '' ''"]
      by (simp add: numPaddingChars_zone)
  next
    case (VALUE v)
    show ?thesis
    proof (cases v)
      case (StringValue s)
      then show ?thesis using VALUE Cons.IH [OF wt, of "ln @ s"] by simp
    next
      case (NumberValue n)
      then show ?thesis
        using VALUE
          Cons.IH [OF wt, of "ln @ (if geZero ops n then '' '' else []) @ numberToString ops n @ '' ''"]
        by simp
    next
      case OtherValue
      then show ?thesis using VALUE Cons.prems by simp
    qed
  qed
qed

text \<open>
  C2. For every argument list whose values are strings or numbers, \<open>print\<close> hands
  the platform the contributions of the arguments in order: for a number a leading
  space when it is non-negative (nothing otherwise), the number and one trailing space;
  for a string the string itself; for a comma the spaces up to the start of the next
  14-column zone (\<open>nextPrintZone_least\<close>: the least multiple of 14 above the current
  length); for a semicolon nothing. A newline follows exactly when the list is empty
  or its last argument is a value.
\<close>

theorem print_follows_rules:
  "list_all wellTypedArg args \<Longrightarrow>
   print ops args =
     Inr (contributions ops 0 args
          @ (if args = [] \<or> isValueArg (last args) then [newline] else []))"
proof -
  assume wt: "list_all wellTypedArg args"
  have loop: "printLoop ops [] args = Inr (contributions ops 0 args)"
    using printLoop_contributions [OF wt, of ops "[]"] by simp
  have "args \<noteq> [] \<Longrightarrow> args ! (length args - 1) = last args"
    by (simp add: last_conv_nth)
  then show ?thesis
    unfolding print_def loop by (cases "args = []") simp_all
qed

theorem print_follows_rules_witness:
  "list_all wellTypedArg
     [VALUE (NumberValue (Some 5)), COMMA, VALUE (StringValue ''hi''), SEMICOLON,
      VALUE (NumberValue (Some (- 3)))]
   \<and> print wholeOps
        [VALUE (NumberValue (Some 5)), COMMA, VALUE (StringValue ''hi''), SEMICOLON,
         VALUE (NumberValue (Some (- 3)))]
      = Inr ('' 5            hi-3 '' @ [newline])"
proof -
  let ?args = "[VALUE (NumberValue (Some 5)), COMMA, VALUE (StringValue ''hi''), SEMICOLON,
       VALUE (NumberValue (Some (- 3)))] :: int option PrintArg list"
  have wt: "list_all wellTypedArg ?args" by simp
  have ev: "contributions wholeOps 0 ?args = '' 5            hi-3 ''" by code_simp
  show ?thesis using wt print_follows_rules [OF wt, of wholeOps] ev by simp
qed

text \<open>
  C9. A comma argument appends 14 minus (line length mod 14) spaces, which is at least
  one and at most 14; on a line whose length is a multiple of 14, the empty line
  included, it appends a full 14 spaces.
\<close>

theorem comma_padding:
  "printLoop ops ln (COMMA # args)
     = printLoop ops (ln @ replicate (numPaddingChars ln) CHR '' '') args
   \<and> numPaddingChars ln = 14 - length ln mod 14
   \<and> 1 \<le> numPaddingChars ln \<and> numPaddingChars ln \<le> 14
   \<and> (length ln mod 14 = 0 \<longrightarrow> numPaddingChars ln = 14)
   \<and> print ops [COMMA] = Inr (replicate 14 CHR '' '')"
proof -
  have "length ln mod 14 < 14" by simp
  then show ?thesis
    by (simp add: numPaddingChars_def PRINT_ZONE_LENGTH_def print_def)
qed

theorem comma_padding_witness:
  "length ''ABCDEFGHIJKLMN'' mod 14 = 0
   \<and> numPaddingChars ''ABCDEFGHIJKLMN'' = 14
   \<and> print wholeOps [VALUE (StringValue ''ABCDEFGHIJKLMN''), COMMA]
       = Inr (''ABCDEFGHIJKLMN'' @ replicate 14 CHR '' '')"
  using comma_padding [of wholeOps "''ABCDEFGHIJKLMN''" "[]"]
  by (simp add: print_def)

section \<open>Properties of the built-in lookup\<close>

lemma find_filter_first:
  "filter P xs = y # ys \<Longrightarrow> find P xs = Some y"
  by (induction xs) (auto split: if_splits)

text \<open>
  C10. When at least one built-in has the name (compared case-insensitively) and the
  flag \<open>shouldReturnIfArgTypeMismatch\<close> is set, \<open>lookupBuiltinFn\<close> does not return
  null; and when no overload fits the argument list, whatever its length, the result is
  the first built-in of the table with that name.
\<close>

theorem lookupBuiltinFn_mismatch_mode:
  "lookupSymbols fnName BUILTIN_FNS n \<noteq> [] \<Longrightarrow>
     lookupBuiltinFn n argTypeSpecs True \<noteq> None
   \<and> (find (\<lambda>f. argsMatch (paramTypeSpecs f) argTypeSpecs)
          (lookupSymbols fnName BUILTIN_FNS n) = None \<longrightarrow>
        lookupBuiltinFn n argTypeSpecs True = lookupSymbol fnName BUILTIN_FNS n
        \<and> lookupBuiltinFn n argTypeSpecs True
            = Some (hd (lookupSymbols fnName BUILTIN_FNS n)))"
proof -
  assume ne: "lookupSymbols fnName BUILTIN_FNS n \<noteq> []"
  then obtain y ys where m: "lookupSymbols fnName BUILTIN_FNS n = y # ys"
    by (cases "lookupSymbols fnName BUILTIN_FNS n") auto
  then have first: "lookupSymbol fnName BUILTIN_FNS n = Some y"
    unfolding lookupSymbols_def lookupSymbol_def by (rule find_filter_first)
  show ?thesis
    unfolding lookupBuiltinFn_def lookupBuiltinFnIn_def Let_def m first
    by (simp split: option.split)
qed

theorem lookupBuiltinFn_mismatch_mode_witness:
  "lookupSymbols fnName BUILTIN_FNS ''INSTR'' \<noteq> []
   \<and> find (\<lambda>f. argsMatch (paramTypeSpecs f) [doubleSpec])
        (lookupSymbols fnName BUILTIN_FNS ''INSTR'') = None
   \<and> lookupBuiltinFn ''INSTR'' [doubleSpec] True
        = Some \<lparr>fnName = ''instr'', paramTypeSpecs = [stringSpec, stringSpec],
                 returnTypeSpec = integerSpec\<rparr>"
proof -
  have ne: "lookupSymbols fnName BUILTIN_FNS ''INSTR'' \<noteq> []" by code_simp
  have nomatch: "find (\<lambda>f. argsMatch (paramTypeSpecs f) [doubleSpec])
        (lookupSymbols fnName BUILTIN_FNS ''INSTR'') = None" by code_simp
  have first: "lookupSymbol fnName BUILTIN_FNS ''INSTR''
        = Some \<lparr>fnName = ''instr'', paramTypeSpecs = [stringSpec, stringSpec],
                 returnTypeSpec = integerSpec\<rparr>" by code_simp
  show ?thesis
    using lookupBuiltinFn_mismatch_mode [OF ne, of "[doubleSpec]"] ne nomatch first by simp
qed

section \<open>Properties of the runtime's input\<close>

lemma elementary_cases:
  "isElementaryType t \<Longrightarrow> isStringType t \<or> isNumericType t"
  by (cases t) (simp_all add: isElementaryType_def)

lemma string_not_numeric: "isStringType t \<Longrightarrow> \<not> isNumericType t"
  by (cases t) simp_all

lemma parseValues_supplies:
  "list_all isElementaryType types \<Longrightarrow>
   \<exists>rs msg. parseValues ops idx types tokens results = Inr (results @ rs, msg)
     \<and> length rs \<le> length types
     \<and> (length rs = length types \<longleftrightarrow> suppliesValues ops (idx = 0) types tokens)
     \<and> (length rs < length types \<longrightarrow> (\<exists>m. msg = Some m \<and> m \<noteq> []))"
proof (induction types arbitrary: idx tokens results)
  case Nil
  then show ?case by simp
next
  case (Cons ty types)
  then have el: "list_all isElementaryType types" and ty: "isStringType ty \<or> isNumericType ty"
    by (simp_all add: elementary_cases)
  show ?case
  proof (cases "consumeComma idx tokens")
    case None
    then have "\<not> suppliesValues ops (idx = 0) (ty # types) tokens"
      by (cases tokens; cases "tl tokens")
         (auto simp: consumeComma_def split: if_splits list.splits)
    with None show ?thesis by (simp add: Let_def)
  next
    case (Some toks)
    show ?thesis
    proof (cases toks)
      case Nil
      with Some have "\<not> suppliesValues ops (idx = 0) (ty # types) tokens"
        by (cases tokens; cases "tl tokens")
           (auto simp: consumeComma_def split: if_splits list.splits)
      with Some Nil show ?thesis by (simp add: Let_def)
    next
      case (Cons t ts)
      have sup: "suppliesValues ops (idx = 0) (ty # types) tokens
          \<longleftrightarrow> wellTypedField ops ty t \<and> suppliesValues ops False types ts"
        using Some Cons
        by (cases tokens; cases "tl tokens")
           (auto simp: consumeComma_def split: if_splits list.splits)
      show ?thesis
      proof (cases "wellTypedField ops ty t")
        case False
        then have "\<exists>msg. parseValues ops idx (ty # types) tokens results
            = Inr (results, Some msg) \<and> msg \<noteq> []"
          using Some Cons ty
          by (auto simp: wellTypedField_def isString_def isNumeric_def string_not_numeric Let_def)
        with False sup show ?thesis by auto
      next
        case True
        define v where "v = (if isStringType ty then StringResult (tokValue t)
            else NumberResult (parseFloat ops (tokValue t)))"
        have step: "parseValues ops idx (ty # types) tokens results
            = parseValues ops (idx + 1) types ts (results @ [v])"
          using True Some Cons ty
          by (auto simp: wellTypedField_def isString_def isNumeric_def string_not_numeric v_def Let_def)
        from Cons.IH [OF el, of "idx + 1" ts "results @ [v]"]
        obtain rs msg where
          r: "parseValues ops (idx + 1) types ts (results @ [v]) = Inr ((results @ [v]) @ rs, msg)"
            "length rs \<le> length types"
            "length rs = length types \<longleftrightarrow> suppliesValues ops False types ts"
            "length rs < length types \<longrightarrow> (\<exists>m. msg = Some m \<and> m \<noteq> [])"
          by auto
        show ?thesis
          using step r True sup
          by (intro exI [of _ "v # rs"] exI [of _ msg]) auto
      qed
    qed
  qed
qed

lemma input_returned_length:
  "input ops prompt types lns printed = (Returned rs, printed') \<Longrightarrow> length rs = length types"
proof (induction lns arbitrary: printed)
  case Nil
  then show ?case by simp
next
  case (Cons ln lns)
  then show ?case
    by (auto split: sum.splits prod.splits if_splits)
qed

text \<open>
  C4 (amended). For requested types that are all elementary: when the tokens of the
  entered line, read from the left, do not supply a well-typed value for every requested
  type (a field for a numeric type parses to NaN, a field is missing, or a separating
  comma is missing), \<open>input\<close> prints the error message and \<open>Redo from start\<close> and
  goes on with the next line; when they do, it returns at once, whatever follows the
  last requested value on the line; and every list it returns has as many results as
  there are requested types.
\<close>

theorem input_redo_from_start:
  "list_all isElementaryType types \<Longrightarrow>
     (\<not> suppliesValues ops True types (lexInput ln) \<longrightarrow>
        (\<exists>m. input ops prompt types (ln # lns) printed
              = input ops prompt types lns
                  (printed @ [prompt, [newline] @ m @ [newline] @ ''Redo from start'' @ [newline]])))
   \<and> (suppliesValues ops True types (lexInput ln) \<longrightarrow>
        (\<exists>rs. input ops prompt types (ln # lns) printed = (Returned rs, printed @ [prompt])
              \<and> length rs = length types))
   \<and> (\<forall>rs printed'. input ops prompt types (ln # lns) printed = (Returned rs, printed')
        \<longrightarrow> length rs = length types)"
proof -
  assume el: "list_all isElementaryType types"
  from parseValues_supplies [OF el, of ops 0 "lexInput ln" "[]"]
  obtain rs msg where
    r: "parseValues ops 0 types (lexInput ln) [] = Inr (rs, msg)"
       "length rs \<le> length types"
       "length rs = length types \<longleftrightarrow> suppliesValues ops True types (lexInput ln)"
       "length rs < length types \<longrightarrow> (\<exists>m. msg = Some m \<and> m \<noteq> [])"
    by auto
  have a: "\<not> suppliesValues ops True types (lexInput ln) \<longrightarrow>
        (\<exists>m. input ops prompt types (ln # lns) printed
              = input ops prompt types lns
                  (printed @ [prompt, [newline] @ m @ [newline] @ ''Redo from start'' @ [newline]]))"
  proof
    assume "\<not> suppliesValues ops True types (lexInput ln)"
    with r have lt: "length rs < length types" by auto
    with r obtain m where m: "msg = Some m" "m \<noteq> []" by auto
    show "\<exists>m. input ops prompt types (ln # lns) printed
              = input ops prompt types lns
                  (printed @ [prompt, [newline] @ m @ [newline] @ ''Redo from start'' @ [newline]])"
      using r(1) lt m by (intro exI [of _ m]) (simp add: redoMessage_def)
  qed
  have b: "suppliesValues ops True types (lexInput ln) \<longrightarrow>
        (\<exists>rs. input ops prompt types (ln # lns) printed = (Returned rs, printed @ [prompt])
              \<and> length rs = length types)"
    using r by auto
  have c: "\<forall>rs printed'. input ops prompt types (ln # lns) printed = (Returned rs, printed')
        \<longrightarrow> length rs = length types"
    using input_returned_length by blast
  show ?thesis using a b c by blast
qed

theorem input_redo_from_start_witness:
  "list_all isElementaryType [singleSpec, stringSpec]
   \<and> \<not> suppliesValues wholeOps True [singleSpec, stringSpec] (lexInput ''abc, hello'')
   \<and> suppliesValues wholeOps True [singleSpec, stringSpec] (lexInput ''5, hello'')
   \<and> input wholeOps ''? '' [singleSpec, stringSpec] [''abc, hello'', ''5, hello''] []
       = (Returned [NumberResult (Some 5), StringResult ''hello''],
          [''? '',
           [newline] @ ''Error parsing value 1: Invalid numeric value '' @ [dquote] @ ''abc''
             @ [dquote] @ [newline] @ ''Redo from start'' @ [newline],
           ''? ''])"
proof -
  have el: "list_all isElementaryType [singleSpec, stringSpec]"
    by (simp add: isElementaryType_def)
  have bad: "\<not> suppliesValues wholeOps True [singleSpec, stringSpec] (lexInput ''abc, hello'')"
    by code_simp
  have good: "suppliesValues wholeOps True [singleSpec, stringSpec] (lexInput ''5, hello'')"
    by code_simp
  have run: "input wholeOps ''? '' [singleSpec, stringSpec] [''abc, hello'', ''5, hello''] []
       = (Returned [NumberResult (Some 5), StringResult ''hello''],
          [''? '',
           [newline] @ ''Error parsing value 1: Invalid numeric value '' @ [dquote] @ ''abc''
             @ [dquote] @ [newline] @ ''Redo from start'' @ [newline],
           ''? ''])"
    by code_simp
  show ?thesis
    using input_redo_from_start [OF el, of wholeOps "''abc, hello''" "''? ''" "[''5, hello'']" "[]"]
      el bad good run
    by simp
qed

text \<open>
  C4 as stated fails for a line with more fields than requested types: for one numeric
  type and the line \<open>5, 6\<close>, which has two fields, \<open>input\<close> returns the single
  result 5 and prints nothing but the prompt.
\<close>

theorem input_surplus_field_counterexample:
  "numFields ''5, 6'' = 2 \<and> length [singleSpec] = 1
   \<and> input wholeOps ''? '' [singleSpec] [''5, 6''] []
       = (Returned [NumberResult (Some 5)], [''? ''])"
  by code_simp

section \<open>Properties of variable resolution\<close>

lemma getTypeSpecFromSuffix_sigil: "getTypeSpecFromSuffix n = sigilType n"
  by (cases n) (simp_all add: getTypeSpecFromSuffix_def sigilType_def TYPE_SUFFIX_MAP_def)

lemma analyzerLookupSymbol_chain:
  "analyzerLookupSymbol st n = firstFound (searchedChain st) n"
  by (simp add: analyzerLookupSymbol_def searchedChain_def getLocalSymbols_def
      split: option.splits)

lemma getLocalSymbols_addLocalSymbol:
  "currentProc st = None \<or> currentProcOf st \<noteq> None \<Longrightarrow>
   getLocalSymbols (addLocalSymbol st symbol) = getLocalSymbols st @ [symbol]"
  by (auto simp: getLocalSymbols_def addLocalSymbol_def currentProcOf_def
      split: option.splits if_splits)

text \<open>
  C3 (amended). Analysis of a variable reference looks the name up, in order, in the
  current procedure's parameters and the current procedure's locals while a procedure
  is visited, or in the module's locals at module level, and then in the module's
  globals; a name found there annotates the node with the symbol's type, kind and
  scope and changes nothing else. On a complete miss, a name that names a function
  procedure without parameters turns the node into a call without arguments, typed
  with the function's return type (with parameters the analysis of that call raises
  the error of a wrong argument count); a name that names no procedure declares a new
  symbol, appended to the locals of the current procedure (or of the module, at module
  level), with the type of the name's sigil suffix, Single without one, and the node is
  annotated with that type, the kind Var and the scope Local.
\<close>

theorem visitVarRefExpr_resolution:
  "analyzerLookupSymbol st n = firstFound (searchedChain st) n
   \<and> (\<forall>symbol scope. analyzerLookupSymbol st n = Some (symbol, scope) \<longrightarrow>
        visitVarRefExpr accept st loc n
          = Inr (VarRefExpr loc n (Some (symTypeSpec symbol)) (Some (symType symbol)) (Some scope),
                 st))
   \<and> (\<forall>proc. analyzerLookupSymbol st n = None
          \<and> lookupSymbol procName (procs st) n = Some proc \<and> procType proc = FN \<longrightarrow>
        visitVarRefExpr accept st loc n
          = (if paramSymbols proc = []
             then Inr (FnCallExpr loc n [] (procReturnTypeSpec proc), st)
             else Inl (SemanticError ''Incorrect number of arguments to function'' loc)))
   \<and> (analyzerLookupSymbol st n = None \<and> lookupSymbol procName (procs st) n = None \<longrightarrow>
        visitVarRefExpr accept st loc n
          = Inr (VarRefExpr loc n (Some (sigilType n)) (Some VAR) (Some LOCAL),
                 addLocalSymbol st \<lparr>symName = n, symType = VAR, symTypeSpec = sigilType n\<rparr>)
        \<and> (currentProc st = None \<or> currentProcOf st \<noteq> None \<longrightarrow>
             getLocalSymbols
               (addLocalSymbol st \<lparr>symName = n, symType = VAR, symTypeSpec = sigilType n\<rparr>)
             = getLocalSymbols st @ [\<lparr>symName = n, symType = VAR, symTypeSpec = sigilType n\<rparr>]))"
proof -
  have hit: "\<forall>symbol scope. analyzerLookupSymbol st n = Some (symbol, scope) \<longrightarrow>
        visitVarRefExpr accept st loc n
          = Inr (VarRefExpr loc n (Some (symTypeSpec symbol)) (Some (symType symbol)) (Some scope),
                 st)"
    by (simp add: visitVarRefExpr_def)
  have fn: "\<forall>proc. analyzerLookupSymbol st n = None
          \<and> lookupSymbol procName (procs st) n = Some proc \<and> procType proc = FN \<longrightarrow>
        visitVarRefExpr accept st loc n
          = (if paramSymbols proc = []
             then Inr (FnCallExpr loc n [] (procReturnTypeSpec proc), st)
             else Inl (SemanticError ''Incorrect number of arguments to function'' loc))"
    by (simp add: visitVarRefExpr_def visitFnCallExpr_def)
  have new: "analyzerLookupSymbol st n = None \<and> lookupSymbol procName (procs st) n = None \<longrightarrow>
        visitVarRefExpr accept st loc n
          = Inr (VarRefExpr loc n (Some (sigilType n)) (Some VAR) (Some LOCAL),
                 addLocalSymbol st \<lparr>symName = n, symType = VAR, symTypeSpec = sigilType n\<rparr>)"
    by (simp add: visitVarRefExpr_def getTypeSpecFromSuffix_sigil)
  show ?thesis
    using analyzerLookupSymbol_chain [of st n] hit fn new
      getLocalSymbols_addLocalSymbol
        [of st "\<lparr>symName = n, symType = VAR, symTypeSpec = sigilType n\<rparr>"]
    by blast
qed

theorem visitVarRefExpr_resolution_witness:
  "analyzerLookupSymbol
     \<lparr>procs = [\<lparr>procType = FN, procName = ''f'', paramSymbols = [],
                 localSymbols = [\<lparr>symName = ''f'', symType = VAR, symTypeSpec = singleSpec\<rparr>],
                 procReturnTypeSpec = Some singleSpec\<rparr>],
       moduleLocalSymbols = [], moduleGlobalSymbols = [], currentProc = None\<rparr> ''total%'' = None
   \<and> visitVarRefExpr (\<lambda>s e. Inr (e, s))
        \<lparr>procs = [\<lparr>procType = FN, procName = ''f'', paramSymbols = [],
                    localSymbols = [\<lparr>symName = ''f'', symType = VAR, symTypeSpec = singleSpec\<rparr>],
                    procReturnTypeSpec = Some singleSpec\<rparr>],
          moduleLocalSymbols = [], moduleGlobalSymbols = [], currentProc = None\<rparr>
        (Loc 1 1) ''total%''
      = Inr (VarRefExpr (Loc 1 1) ''total%'' (Some integerSpec) (Some VAR) (Some LOCAL),
             \<lparr>procs = [\<lparr>procType = FN, procName = ''f'', paramSymbols = [],
                    localSymbols = [\<lparr>symName = ''f'', symType = VAR, symTypeSpec = singleSpec\<rparr>],
                    procReturnTypeSpec = Some singleSpec\<rparr>],
               moduleLocalSymbols =
                 [\<lparr>symName = ''total%'', symType = VAR, symTypeSpec = integerSpec\<rparr>],
               moduleGlobalSymbols = [], currentProc = None\<rparr>)"
proof -
  let ?st = "\<lparr>procs = [\<lparr>procType = FN, procName = ''f'', paramSymbols = [],
                 localSymbols = [\<lparr>symName = ''f'', symType = VAR, symTypeSpec = singleSpec\<rparr>],
                 procReturnTypeSpec = Some singleSpec\<rparr>],
       moduleLocalSymbols = [], moduleGlobalSymbols = [], currentProc = None\<rparr>"
  have miss: "analyzerLookupSymbol ?st ''total%'' = None" by code_simp
  have noproc: "lookupSymbol procName (procs ?st) ''total%'' = None" by code_simp
  have sig: "sigilType ''total%'' = integerSpec" by code_simp
  have add: "addLocalSymbol ?st \<lparr>symName = ''total%'', symType = VAR, symTypeSpec = integerSpec\<rparr>
      = ?st\<lparr>moduleLocalSymbols :=
                 [\<lparr>symName = ''total%'', symType = VAR, symTypeSpec = integerSpec\<rparr>]\<rparr>"
    by (simp add: addLocalSymbol_def)
  note r = visitVarRefExpr_resolution [of ?st "''total%''" "\<lambda>s e. Inr (e, s)" "Loc 1 1",
      THEN conjunct2, THEN conjunct2, THEN conjunct2, THEN mp, OF conjI [OF miss noproc],
      THEN conjunct1]
  have "visitVarRefExpr (\<lambda>s e. Inr (e, s)) ?st (Loc 1 1) ''total%''
      = Inr (VarRefExpr (Loc 1 1) ''total%'' (Some integerSpec) (Some VAR) (Some LOCAL),
             ?st\<lparr>moduleLocalSymbols :=
                 [\<lparr>symName = ''total%'', symType = VAR, symTypeSpec = integerSpec\<rparr>]\<rparr>)"
    using r unfolding sig add .
  then show ?thesis using miss by simp
qed

text \<open>
  C3 as stated fails inside a procedure: the module's locals are not searched there.
  With \<open>x\<close> among the module's locals (as the module-level statement \<open>x = 1\<close> leaves
  it) and the function \<open>f\<close> being visited, the claimed chain finds \<open>x\<close>, the
  analyzer does not, and the reference declares a second \<open>x\<close> in the locals of \<open>f\<close>.
  And a name that names a function with a parameter is not rewritten: the analysis of
  the call without arguments raises an error.
\<close>

theorem visitVarRefExpr_module_locals_counterexample:
  "firstFound
     (claimedChain
       \<lparr>procs = [\<lparr>procType = FN, procName = ''f'', paramSymbols = [],
                   localSymbols = [\<lparr>symName = ''f'', symType = VAR, symTypeSpec = singleSpec\<rparr>],
                   procReturnTypeSpec = Some singleSpec\<rparr>],
         moduleLocalSymbols = [\<lparr>symName = ''x'', symType = VAR, symTypeSpec = singleSpec\<rparr>],
         moduleGlobalSymbols = [], currentProc = Some 0\<rparr>) ''x''
     = Some (\<lparr>symName = ''x'', symType = VAR, symTypeSpec = singleSpec\<rparr>, LOCAL)
   \<and> analyzerLookupSymbol
       \<lparr>procs = [\<lparr>procType = FN, procName = ''f'', paramSymbols = [],
                   localSymbols = [\<lparr>symName = ''f'', symType = VAR, symTypeSpec = singleSpec\<rparr>],
                   procReturnTypeSpec = Some singleSpec\<rparr>],
         moduleLocalSymbols = [\<lparr>symName = ''x'', symType = VAR, symTypeSpec = singleSpec\<rparr>],
         moduleGlobalSymbols = [], currentProc = Some 0\<rparr> ''x'' = None
   \<and> visitVarRefExpr (\<lambda>s e. Inr (e, s))
       \<lparr>procs = [\<lparr>procType = FN, procName = ''f'', paramSymbols = [],
                   localSymbols = [\<lparr>symName = ''f'', symType = VAR, symTypeSpec = singleSpec\<rparr>],
                   procReturnTypeSpec = Some singleSpec\<rparr>],
         moduleLocalSymbols = [\<lparr>symName = ''x'', symType = VAR, symTypeSpec = singleSpec\<rparr>],
         moduleGlobalSymbols = [], currentProc = Some 0\<rparr> (Loc 4 7) ''x''
     = Inr (VarRefExpr (Loc 4 7) ''x'' (Some singleSpec) (Some VAR) (Some LOCAL) :: int option Expr,
        \<lparr>procs = [\<lparr>procType = FN, procName = ''f'', paramSymbols = [],
                   localSymbols = [\<lparr>symName = ''f'', symType = VAR, symTypeSpec = singleSpec\<rparr>,
                                   \<lparr>symName = ''x'', symType = VAR, symTypeSpec = singleSpec\<rparr>],
                   procReturnTypeSpec = Some singleSpec\<rparr>],
         moduleLocalSymbols = [\<lparr>symName = ''x'', symType = VAR, symTypeSpec = singleSpec\<rparr>],
         moduleGlobalSymbols = [], currentProc = Some 0\<rparr>)
   \<and> visitVarRefExpr (\<lambda>s e. Inr (e, s))
       \<lparr>procs = [\<lparr>procType = FN, procName = ''g'',
                   paramSymbols = [\<lparr>symName = ''a'', symType = ARG, symTypeSpec = singleSpec\<rparr>],
                   localSymbols = [\<lparr>symName = ''g'', symType = VAR, symTypeSpec = singleSpec\<rparr>],
                   procReturnTypeSpec = Some singleSpec\<rparr>],
         moduleLocalSymbols = [], moduleGlobalSymbols = [], currentProc = None\<rparr> (Loc 1 1) ''g''
     = (Inl (SemanticError ''Incorrect number of arguments to function'' (Loc 1 1))
          :: error + (int option Expr \<times> AnalyzerState))"
  by code_simp

section \<open>Properties of the lexer\<close>

lemma takeWhile_run:
  "list_all P ws \<Longrightarrow> rest = [] \<or> \<not> P (hd rest) \<Longrightarrow>
   takeWhile P (ws @ rest) = ws \<and> dropWhile P (ws @ rest) = rest"
proof (induction ws)
  case Nil
  then show ?case by (cases rest) auto
next
  case (Cons a ws)
  then show ?case by simp
qed

lemma mooNext_whitespace:
  assumes "ws \<noteq> []" "list_all isSpace ws" "rest = [] \<or> \<not> isSpace (hd rest)"
  shows "mooNext (ws @ rest)
    = Inr (Some (\<lparr>tokType = (if newline \<in> set ws then ''NEWLINE'' else ''WHITESPACE''),
                   tokValue = ws, tokText = ws\<rparr>, rest))"
proof -
  from assms(1) obtain c cs where ws: "ws = c # cs" by (cases ws) auto
  with assms(2) have c: "isSpace c" and cs: "list_all isSpace cs" by simp_all
  from takeWhile_run [OF cs assms(3)]
  have t: "takeWhile isSpace (cs @ rest) = cs" and d: "dropWhile isSpace (cs @ rest) = rest"
    by simp_all
  show ?thesis
    unfolding ws using c by (simp add: mooNext_def t d mooTokenType_def)
qed

lemma runs_after_whitespace:
  "list_all isSpace ws \<Longrightarrow> whitespaceRunsFrom run (ws @ rest) = whitespaceRunsFrom (run @ ws) rest"
  by (induction ws arbitrary: run) simp_all

lemma runs_start:
  "rest = [] \<or> \<not> isSpace (hd rest) \<Longrightarrow>
   whitespaceRunsFrom run rest = (if run = [] then [] else [run]) @ whitespaceRunsFrom [] rest"
  by (cases rest) auto

lemma runs_skip_text:
  "list_all (\<lambda>c. \<not> isSpace c) lexeme \<Longrightarrow>
   whitespaceRunsFrom [] (lexeme @ rest) = whitespaceRunsFrom [] rest"
  by (induction lexeme) simp_all

lemma newlineRuns_whitespace:
  assumes "ws \<noteq> []" "list_all isSpace ws" "rest = [] \<or> \<not> isSpace (hd rest)"
  shows "newlineRuns (ws @ rest) = (if newline \<in> set ws then [ws] else []) @ newlineRuns rest"
proof -
  have "whitespaceRunsFrom [] (ws @ rest) = [ws] @ whitespaceRunsFrom [] rest"
    using runs_after_whitespace [OF assms(2), of "[]" rest] runs_start [OF assms(3), of ws] assms(1)
    by simp
  then show ?thesis by (simp add: newlineRuns_def)
qed

lemma newlineRuns_text:
  "list_all (\<lambda>c. \<not> isSpace c) lexeme \<Longrightarrow> newlineRuns (lexeme @ rest) = newlineRuns rest"
  by (simp add: newlineRuns_def runs_skip_text)

lemma not_space_ident: "isIdentChar c \<Longrightarrow> \<not> isSpace c"
  by (auto simp: isIdentChar_def isIdentStart_def isDigit_def isSpace_def charCode_def)

lemma not_space_digit: "isDigit c \<Longrightarrow> \<not> isSpace c"
  by (auto simp: isDigit_def isSpace_def)

lemma not_space_sigil: "isSigil c \<Longrightarrow> \<not> isSpace c"
  by (auto simp: isSigil_def isSpace_def charCode_def)

lemma takeWhile_all: "list_all P (takeWhile P xs)"
  by (induction xs) simp_all

lemma matchNumericLiteral_text:
  assumes "matchNumericLiteral s = Some (lexeme, rest)"
  shows "s = lexeme @ rest \<and> lexeme \<noteq> [] \<and> list_all (\<lambda>c. \<not> isSpace c) lexeme"
proof -
  define sign where "sign = (if s \<noteq> [] \<and> hd s = CHR ''-'' then ''-'' else [])"
  define r where "r = drop (length sign) s"
  define ds where "ds = takeWhile isDigit r"
  define after where "after = dropWhile isDigit r"
  have s: "s = sign @ r"
    unfolding r_def sign_def by (cases s) auto
  have r: "r = ds @ after" unfolding ds_def after_def by simp
  have nsd: "\<And>xs. list_all (\<lambda>c. \<not> isSpace c) (takeWhile isDigit xs)"
    by (rule list.pred_mono_strong [OF takeWhile_all]) (simp add: not_space_digit)
  have nss: "list_all (\<lambda>c. \<not> isSpace c) sign"
    by (simp add: sign_def isSpace_def charCode_def)
  have dot: "\<not> isSpace CHR ''.''" by (simp add: isSpace_def charCode_def)
  show ?thesis
  proof (cases "after \<noteq> [] \<and> hd after = CHR ''.'' \<and> takeWhile isDigit (tl after) \<noteq> []")
    case True
    then have t: "lexeme = sign @ ds @ ''.'' @ takeWhile isDigit (tl after)"
      and re: "rest = dropWhile isDigit (tl after)"
      using assms
      unfolding matchNumericLiteral_def Let_def sign_def [symmetric] r_def [symmetric]
        ds_def [symmetric] after_def [symmetric]
      by simp_all
    from True have a: "after = CHR ''.'' # tl after" by (cases after) auto
    have "s = sign @ ds @ CHR ''.'' # (takeWhile isDigit (tl after) @ dropWhile isDigit (tl after))"
      using s r a by simp
    then have "s = lexeme @ rest" unfolding t re by simp
    moreover have "list_all (\<lambda>c. \<not> isSpace c) lexeme"
      unfolding t ds_def using nss nsd dot by simp
    moreover have "lexeme \<noteq> []" unfolding t by simp
    ultimately show ?thesis by simp
  next
    case False
    then have d: "ds \<noteq> []" and t: "lexeme = sign @ ds" and re: "rest = after"
      using assms
      unfolding matchNumericLiteral_def Let_def sign_def [symmetric] r_def [symmetric]
        ds_def [symmetric] after_def [symmetric]
      by (auto split: if_splits)
    have "s = lexeme @ rest" unfolding t re using s r by simp
    moreover have "list_all (\<lambda>c. \<not> isSpace c) lexeme"
      unfolding t ds_def using nss nsd by simp
    moreover have "lexeme \<noteq> []" unfolding t using d by simp
    ultimately show ?thesis by simp
  qed
qed

lemma matchPunctuation_text:
  assumes "matchPunctuation s = Some rule"
  shows "s = fst rule @ drop (length (fst rule)) s \<and> fst rule \<noteq> []
    \<and> list_all (\<lambda>c. \<not> isSpace c) (fst rule)
    \<and> snd rule \<notin> {''NEWLINE'', ''WHITESPACE'', ''COMMENT''}"
proof -
  from assms have mem: "rule \<in> set PUNCTUATION" and t: "take (length (fst rule)) s = fst rule"
    unfolding matchPunctuation_def by (auto simp: find_Some_iff)
  have "s = take (length (fst rule)) s @ drop (length (fst rule)) s" by simp
  then have "s = fst rule @ drop (length (fst rule)) s" using t by simp
  moreover have "list_all (\<lambda>rule. fst rule \<noteq> [] \<and> list_all (\<lambda>c. \<not> isSpace c) (fst rule)
      \<and> snd rule \<noteq> ''NEWLINE'' \<and> snd rule \<noteq> ''WHITESPACE'' \<and> snd rule \<noteq> ''COMMENT'')
    PUNCTUATION"
    by code_simp
  ultimately show ?thesis using mem by (simp add: list_all_iff)
qed

lemma keyword_type_plain:
  "mooTokenType (caseInsensitiveKeywords lexeme) ''IDENTIFIER''
     \<notin> {''NEWLINE'', ''WHITESPACE'', ''COMMENT''}"
proof (cases "map_of Keywords (toLowerCase lexeme)")
  case None
  then show ?thesis by (simp add: caseInsensitiveKeywords_def mooTokenType_def)
next
  case (Some k)
  then have "(toLowerCase lexeme, k) \<in> set Keywords" by (rule map_of_SomeD)
  moreover have "list_all (\<lambda>kw. snd kw \<noteq> [] \<and> snd kw \<noteq> ''NEWLINE''
      \<and> snd kw \<noteq> ''WHITESPACE'' \<and> snd kw \<noteq> ''COMMENT'') Keywords"
    by code_simp
  ultimately have "k \<noteq> [] \<and> k \<notin> {''NEWLINE'', ''WHITESPACE'', ''COMMENT''}"
    by (auto simp: list_all_iff)
  with Some show ?thesis by (simp add: caseInsensitiveKeywords_def mooTokenType_def)
qed

lemma lexerNext_whitespace:
  assumes a: "ws \<noteq> []" "list_all isSpace ws" "rest = [] \<or> \<not> isSpace (hd rest)"
  shows "lexerNext (ws @ rest)
       = (if newline \<in> set ws
          then Inr (Some (\<lparr>tokType = ''NEWLINE'', tokValue = ws, tokText = ws\<rparr>, rest))
          else lexerNext rest)"
  by (subst lexerNext.simps) (simp add: mooNext_whitespace [OF a] TOKEN_TYPES_TO_DISCARD_def)

lemma lexAll_whitespace:
  assumes a: "ws \<noteq> []" "list_all isSpace ws" "rest = [] \<or> \<not> isSpace (hd rest)"
  shows "lexAll (ws @ rest)
       = (case lexAll rest of
            Inl err \<Rightarrow> Inl err
          | Inr tokens \<Rightarrow>
              Inr ((if newline \<in> set ws
                    then [\<lparr>tokType = ''NEWLINE'', tokValue = ws, tokText = ws\<rparr>] else [])
                   @ tokens))"
proof (cases "newline \<in> set ws")
  case True
  then show ?thesis
    by (subst lexAll.simps) (simp add: lexerNext_whitespace [OF a] split: sum.split)
next
  case False
  have "lexAll (ws @ rest) = lexAll rest"
    by (subst lexAll.simps, subst (2) lexAll.simps) (simp add: lexerNext_whitespace [OF a] False)
  then show ?thesis using False by (simp split: sum.split)
qed

lemma mooNext_plain_token:
  assumes s: "s = c # cs" and c: "\<not> isSpace c"
    and q: "dquote \<notin> set s" "apostrophe \<notin> set s"
    and m: "mooNext s = Inr (Some (t, rest))"
  shows "s = tokText t @ rest \<and> tokText t \<noteq> [] \<and> list_all (\<lambda>x. \<not> isSpace x) (tokText t)
     \<and> tokType t \<notin> {''NEWLINE'', ''WHITESPACE'', ''COMMENT''}"
proof (cases "isIdentStart c")
  case True
  define body where "body = takeWhile isIdentChar cs"
  define after where "after = dropWhile isIdentChar cs"
  define sigil where "sigil = (if after \<noteq> [] \<and> isSigil (hd after) then [hd after] else [])"
  have cs: "cs = body @ after" by (simp add: body_def after_def)
  have af: "after = sigil @ drop (length sigil) after"
    by (cases after) (simp_all add: sigil_def)
  have nq: "c \<noteq> apostrophe" using q s by auto
  have e: "mooNext s
      = Inr (Some (\<lparr>tokType = mooTokenType (caseInsensitiveKeywords (c # body @ sigil))
                                  ''IDENTIFIER'',
                     tokValue = c # body @ sigil, tokText = c # body @ sigil\<rparr>,
                   drop (length sigil) after))"
    unfolding body_def after_def sigil_def using s c nq True
    by (simp add: mooNext_def Let_def)
  have t: "tokText t = c # body @ sigil" and r: "rest = drop (length sigil) after"
    and ty: "tokType t = mooTokenType (caseInsensitiveKeywords (c # body @ sigil)) ''IDENTIFIER''"
    using m unfolding e by auto
  have "list_all (\<lambda>x. \<not> isSpace x) body"
    unfolding body_def
    by (rule list.pred_mono_strong [OF takeWhile_all]) (simp add: not_space_ident)
  moreover have "list_all (\<lambda>x. \<not> isSpace x) sigil"
    by (simp add: sigil_def not_space_sigil)
  moreover have "s = (c # body @ sigil) @ drop (length sigil) after"
    using s cs af by simp
  ultimately show ?thesis
    using t r ty c keyword_type_plain [of "c # body @ sigil"] by simp
next
  case False
  have nq: "c \<noteq> dquote" "c \<noteq> apostrophe" using q s by auto
  show ?thesis
  proof (cases "matchNumericLiteral s")
    case (Some a)
    obtain lexeme rest' where a: "a = (lexeme, rest')" by (cases a)
    have "tokText t = lexeme" "rest = rest'" "tokType t = ''NUMERIC_LITERAL''"
      using m s c nq False Some a by (auto simp: mooNext_def)
    then show ?thesis using matchNumericLiteral_text [of s lexeme rest'] Some a by simp
  next
    case None
    then obtain rule where r: "matchPunctuation s = Some rule"
      and t: "tokText t = fst rule" "rest = drop (length (fst rule)) s" "tokType t = snd rule"
      using m s c nq False by (auto simp: mooNext_def split: option.splits)
    show ?thesis using matchPunctuation_text [OF r] t by simp
  qed
qed

text \<open>
  For a text without string literals and comments (no double quote and no apostrophe)
  that the lexer accepts, the \<open>NEWLINE\<close> tokens of the stream are, in order, exactly
  the maximal white-space runs of the text that contain a newline.
\<close>

lemma newline_tokens_of_plain_text:
  "dquote \<notin> set s \<Longrightarrow> apostrophe \<notin> set s \<Longrightarrow> lexAll s = Inr tokens \<Longrightarrow>
   map tokText (newlineTokens tokens) = newlineRuns s"
proof (induction s arbitrary: tokens rule: length_induct)
  case (1 s)
  show ?case
  proof (cases s)
    case Nil
    have "lexerNext [] = Inr None" by (subst lexerNext.simps) (simp add: mooNext_def)
    then have "lexAll [] = Inr []" by (subst lexAll.simps) simp
    with Nil "1.prems" show ?thesis
      by (simp add: newlineTokens_def newlineRuns_def)
  next
    case (Cons c cs)
    show ?thesis
    proof (cases "isSpace c")
      case True
      define ws where "ws = c # takeWhile isSpace cs"
      define rest where "rest = dropWhile isSpace cs"
      have s: "s = ws @ rest" by (simp add: Cons ws_def rest_def)
      have a3: "rest = [] \<or> \<not> isSpace (hd rest)"
        unfolding rest_def by (metis hd_dropWhile)
      have a: "ws \<noteq> []" "list_all isSpace ws" "rest = [] \<or> \<not> isSpace (hd rest)"
        using True a3 by (simp_all add: ws_def takeWhile_all)
      have len: "length rest < length s"
        by (simp add: s ws_def)
      have sub: "dquote \<notin> set rest" "apostrophe \<notin> set rest"
        using "1.prems"(1,2) s by auto
      from "1.prems"(3) obtain tokens' where
        r: "lexAll rest = Inr tokens'"
        and tk: "tokens = (if newline \<in> set ws
                    then [\<lparr>tokType = ''NEWLINE'', tokValue = ws, tokText = ws\<rparr>] else [])
                   @ tokens'"
        unfolding s lexAll_whitespace [OF a] by (auto split: sum.splits)
      have ih: "map tokText (newlineTokens tokens') = newlineRuns rest"
        using "1.IH" len sub r by blast
      show ?thesis
        unfolding s newlineRuns_whitespace [OF a] tk using ih
        by (simp add: newlineTokens_def)
    next
      case False
      have "\<And>e. mooNext s = Inl e \<Longrightarrow> lexAll s = Inl e"
        by (subst lexAll.simps, subst lexerNext.simps) simp
      with "1.prems"(3) have noerr: "\<And>e. mooNext s \<noteq> Inl e" by auto
      have "mooNext s \<noteq> Inr None"
        by (simp add: Cons mooNext_def Let_def split: option.splits prod.splits)
      with noerr obtain t rest where m: "mooNext s = Inr (Some (t, rest))"
        by (cases "mooNext s") auto
      note p = mooNext_plain_token [OF Cons False "1.prems"(1,2) m]
      then have keep: "\<not> (tokType t \<noteq> [] \<and> tokType t \<in> set TOKEN_TYPES_TO_DISCARD)"
        by (auto simp: TOKEN_TYPES_TO_DISCARD_def)
      have nx: "lexerNext s = Inr (Some (t, rest))"
        by (subst lexerNext.simps) (simp add: m keep del: set_simps)
      have s: "s = tokText t @ rest" and ns: "list_all (\<lambda>x. \<not> isSpace x) (tokText t)"
        and ne: "tokText t \<noteq> []" and ty: "tokType t \<noteq> ''NEWLINE''"
        using p by auto
      have len: "length rest < length s" using s ne by (metis length_append length_greater_0_conv less_add_same_cancel2)
      have sub: "dquote \<notin> set rest" "apostrophe \<notin> set rest"
        using "1.prems"(1,2) s by (metis Un_iff set_append)+
      from "1.prems"(3) nx obtain tokens' where
        r: "lexAll rest = Inr tokens'" and tk: "tokens = t # tokens'"
        by (subst (asm) lexAll.simps) (auto split: sum.splits)
      have ih: "map tokText (newlineTokens tokens') = newlineRuns rest"
        using "1.IH" len sub r by blast
      have "newlineRuns s = newlineRuns rest"
        using newlineRuns_text [OF ns, of rest] s by simp
      then show ?thesis using ih tk ty by (simp add: newlineTokens_def)
    qed
  qed
qed

text \<open>
  C6. For every input text, the lexer emits a \<open>NEWLINE\<close> token for each maximal
  run of white space that contains a newline character, and no token at all for a run
  that contains none. A run of white space, for a lexer, is one that it meets where it
  looks for its next token (the characters between the quotes of a string literal and
  those of a comment are part of that token's match). At every such position, with the
  run \<open>ws\<close> maximal: when \<open>ws\<close> contains a newline the next token is one \<open>NEWLINE\<close>
  token whose text is the whole run, and when it does not the next token is the one
  that follows the run, so that the run leaves nothing in the token stream.
\<close>

theorem whitespace_run_token:
  "ws \<noteq> [] \<Longrightarrow> list_all isSpace ws \<Longrightarrow> rest = [] \<or> \<not> isSpace (hd rest) \<Longrightarrow>
     lexerNext (ws @ rest)
       = (if newline \<in> set ws
          then Inr (Some (\<lparr>tokType = ''NEWLINE'', tokValue = ws, tokText = ws\<rparr>, rest))
          else lexerNext rest)
   \<and> lexAll (ws @ rest)
       = (case lexAll rest of
            Inl err \<Rightarrow> Inl err
          | Inr tokens \<Rightarrow>
              Inr ((if newline \<in> set ws
                    then [\<lparr>tokType = ''NEWLINE'', tokValue = ws, tokText = ws\<rparr>] else [])
                   @ tokens))"
  using lexerNext_whitespace [of ws rest] lexAll_whitespace [of ws rest] by simp

theorem whitespace_run_token_witness:
  "[newline, CHR '' ''] \<noteq> [] \<and> list_all isSpace [newline, CHR '' '']
   \<and> \<not> isSpace (hd ''x'')
   \<and> lexerNext ([newline, CHR '' ''] @ ''x'')
       = Inr (Some (\<lparr>tokType = ''NEWLINE'', tokValue = [newline, CHR '' ''],
                      tokText = [newline, CHR '' '']\<rparr>, ''x''))
   \<and> list_all isSpace ''  '' \<and> newline \<notin> set ''  ''
   \<and> lexAll (''  '' @ ''x'') = lexAll ''x''
   \<and> lexAll ''x'' = Inr [\<lparr>tokType = ''IDENTIFIER'', tokValue = ''x'', tokText = ''x''\<rparr>]"
proof -
  have s1: "list_all isSpace [newline, CHR '' '']" by code_simp
  have s2: "list_all isSpace ''  ''" by code_simp
  have nl: "newline \<notin> set ''  ''" by code_simp
  have lx: "lexAll ''x'' = Inr [\<lparr>tokType = ''IDENTIFIER'', tokValue = ''x'', tokText = ''x''\<rparr>]"
    by code_simp
  have x1: "''x'' = [] \<or> \<not> isSpace (hd ''x'')" by code_simp
  from whitespace_run_token [OF _ s1 x1]
  have a: "lexerNext ([newline, CHR '' ''] @ ''x'')
       = Inr (Some (\<lparr>tokType = ''NEWLINE'', tokValue = [newline, CHR '' ''],
                      tokText = [newline, CHR '' '']\<rparr>, ''x''))"
    by simp
  from whitespace_run_token [OF _ s2 x1]
  have b: "lexAll (''  '' @ ''x'') = lexAll ''x''"
    using nl lx by simp
  show ?thesis using s1 s2 x1 a b nl lx by simp
qed

section \<open>Properties of the code generator\<close>

lemma generateLoc_nonempty: "generateLoc loc \<noteq> []"
  by (cases loc) simp

lemma createStmtSourceNode_text:
  "0 \<le> indent st \<Longrightarrow>
   createStmtSourceNode env st loc (Inr code) = Inr (stmtText env (indent st) loc code, st)"
  by (simp add: createStmtSourceNode_def lines_def stmtText_def pad_def generateLoc_nonempty
      mult_less_0_iff nat_add_distrib)

lemma generateLabelStmt_text:
  "0 \<le> indent st \<Longrightarrow>
   generateLabelStmt env st (Some loc) label = Inr (labelText env (indent st) loc label, st)"
  by (simp add: generateLabelStmt_def lines_def labelText_def pad_def generateLoc_nonempty
      mult_less_0_iff nat_add_distrib quoted_def)

lemma nextIncrementCode_text:
  "generates env (counterExpr (forStmt frame)) \<Longrightarrow>
   nextIncrementCode env frame
     = Inr (exprText env (counterExpr (forStmt frame)) @ '' += '' @ stepValue frame @ ''; ''
            @ generateGotoCode (startLabel frame))"
  by (auto simp: nextIncrementCode_def generates_def exprText_def split: sum.splits)

lemma closeForStmts_text:
  "int k \<le> indent st \<Longrightarrow> k \<le> length (openForStmtStates st) \<Longrightarrow>
   list_all (\<lambda>f. generates env (counterExpr (forStmt f))) (take k (openForStmtStates st)) \<Longrightarrow>
   closeForStmts env st loc k
     = Inr (closeTexts env (indent st) loc (take k (openForStmtStates st)),
            st\<lparr>openForStmtStates := drop k (openForStmtStates st), indent := indent st - int k\<rparr>)"
proof (induction k arbitrary: st)
  case 0
  then show ?case by simp
next
  case (Suc k)
  from Suc.prems(2) obtain frame frames where fr: "openForStmtStates st = frame # frames"
    by (cases "openForStmtStates st") auto
  have g: "generates env (counterExpr (forStmt frame))"
    and gs: "list_all (\<lambda>f. generates env (counterExpr (forStmt f))) (take k frames)"
    using Suc.prems(3) fr by simp_all
  have ind: "0 \<le> indent st" "0 \<le> indent st - 1" using Suc.prems(1) by simp_all
  let ?st1 = "st\<lparr>openForStmtStates := frames\<rparr>"
  let ?st2 = "?st1\<lparr>indent := indent st - 1\<rparr>"
  have a: "createStmtSourceNode env ?st1 loc (nextIncrementCode env frame)
      = Inr (stmtText env (indent st) loc
               (exprText env (counterExpr (forStmt frame)) @ '' += '' @ stepValue frame @ ''; ''
                @ generateGotoCode (startLabel frame)), ?st1)"
    using createStmtSourceNode_text [of ?st1 env loc] ind nextIncrementCode_text [OF g] by simp
  have b: "generateLabelStmt env ?st2 (Some (forLoc (forStmt frame))) (endLabel frame)
      = Inr (labelText env (indent st - 1) (forLoc (forStmt frame)) (endLabel frame), ?st2)"
    using generateLabelStmt_text [of ?st2 env] ind by simp
  have c: "createStmtSourceNode env ?st2 (forLoc (forStmt frame)) (Inr (releaseTempsCode frame))
      = Inr (stmtText env (indent st - 1) (forLoc (forStmt frame)) (releaseTempsCode frame), ?st2)"
    using createStmtSourceNode_text [of ?st2 env] ind by simp
  have ih: "closeForStmts env ?st2 loc k
      = Inr (closeTexts env (indent st - 1) loc (take k frames),
             ?st2\<lparr>openForStmtStates := drop k frames, indent := indent st - 1 - int k\<rparr>)"
    using Suc.IH [of ?st2] Suc.prems(1,2) gs fr by simp
  show ?case
    using fr a b c ih by (simp add: closeText_def releaseTempsCode_def)
qed

lemma verifyCounters_match:
  "length cs \<le> length frames \<Longrightarrow> list_all (generates env) cs \<Longrightarrow>
   list_all (\<lambda>f. generates env (counterExpr (forStmt f))) (take (length cs) frames) \<Longrightarrow>
   countersMatch env cs frames \<Longrightarrow>
   verifyCounters env loc i cs frames = None"
proof (induction cs arbitrary: frames i)
  case Nil
  then show ?case by simp
next
  case (Cons c cs)
  then obtain f fs where fr: "frames = f # fs" by (cases frames) auto
  with Cons.prems have "verifyCounters env loc (i + 1) cs fs = None"
    using Cons.IH [of fs "i + 1"] by (simp add: countersMatch_def)
  with Cons.prems fr show ?case
    by (auto simp: countersMatch_def generates_def exprText_def split: sum.splits)
qed

lemma verifyCounters_mismatch:
  "length cs \<le> length frames \<Longrightarrow> list_all (generates env) cs \<Longrightarrow>
   list_all (\<lambda>f. generates env (counterExpr (forStmt f))) (take (length cs) frames) \<Longrightarrow>
   \<not> countersMatch env cs frames \<Longrightarrow>
   \<exists>j < length cs. verifyCounters env loc i cs frames
     = Some (CodegenError
         (''Counter #'' @ showNat (i + j + 1) @ '' does not match corresponding FOR statement'') loc)"
proof (induction cs arbitrary: frames i)
  case Nil
  then show ?case by (simp add: countersMatch_def)
next
  case (Cons c cs)
  then obtain f fs where fr: "frames = f # fs" by (cases frames) auto
  from Cons.prems fr have "\<not> isl (acceptExpr env c)"
    "\<not> isl (acceptExpr env (counterExpr (forStmt f)))"
    by (simp_all add: generates_def)
  then obtain a b where
    ab: "acceptExpr env c = Inr a" "acceptExpr env (counterExpr (forStmt f)) = Inr b"
    by (cases "acceptExpr env c"; cases "acceptExpr env (counterExpr (forStmt f))") auto
  show ?case
  proof (cases "a = b")
    case False
    then have "verifyCounters env loc i (c # cs) frames
      = Some (CodegenError
         (''Counter #'' @ showNat (i + 0 + 1) @ '' does not match corresponding FOR statement'') loc)"
      using fr ab by simp
    then show ?thesis by (intro exI [of _ 0]) simp
  next
    case True
    then have nm: "\<not> countersMatch env cs fs"
      using Cons.prems(4) fr ab by (simp add: countersMatch_def exprText_def)
    from Cons.IH [of fs "i + 1"] Cons.prems fr nm
    obtain j where j: "j < length cs"
      "verifyCounters env loc (i + 1) cs fs
        = Some (CodegenError
           (''Counter #'' @ showNat (i + 1 + j + 1) @ '' does not match corresponding FOR statement'')
           loc)"
      by auto
    have "verifyCounters env loc i (c # cs) frames = verifyCounters env loc (i + 1) cs fs"
      using fr ab True by simp
    with j show ?thesis
      by (intro exI [of _ "Suc j"]) (simp add: add.commute add.left_commute)
  qed
qed

lemma visitNextStmt_closes:
  assumes k: "numForStmtStatesToClose cs \<le> length (openForStmtStates st)"
    and gc: "list_all (generates env) cs"
    and gf: "list_all (\<lambda>f. generates env (counterExpr (forStmt f)))
               (take (numForStmtStatesToClose cs) (openForStmtStates st))"
    and m: "countersMatch env cs (openForStmtStates st)"
    and ind: "int (numForStmtStatesToClose cs) \<le> indent st"
  shows "visitNextStmt env st loc cs
     = Inr (closeTexts env (indent st) loc
              (take (numForStmtStatesToClose cs) (openForStmtStates st)),
            st\<lparr>openForStmtStates := drop (numForStmtStatesToClose cs) (openForStmtStates st),
                indent := indent st - int (numForStmtStatesToClose cs)\<rparr>)"
proof -
  have len: "length cs \<le> length (openForStmtStates st)"
    using k by (simp add: numForStmtStatesToClose_def split: if_splits)
  have "list_all (\<lambda>f. generates env (counterExpr (forStmt f)))
      (take (length cs) (openForStmtStates st))"
    using gf by (cases "cs = []") (simp_all add: numForStmtStatesToClose_def)
  then have v: "verifyCounters env loc 0 cs (openForStmtStates st) = None"
    using verifyCounters_match [OF len gc _ m] by simp
  show ?thesis
    using k v closeForStmts_text [OF ind k gf] by (simp add: visitNextStmt_def)
qed

lemma visitNextStmt_mismatch:
  assumes k: "numForStmtStatesToClose cs \<le> length (openForStmtStates st)"
    and gc: "list_all (generates env) cs"
    and gf: "list_all (\<lambda>f. generates env (counterExpr (forStmt f)))
               (take (numForStmtStatesToClose cs) (openForStmtStates st))"
    and m: "\<not> countersMatch env cs (openForStmtStates st)"
  shows "\<exists>j < length cs. visitNextStmt env st loc cs
     = Inl (CodegenError
         (''Counter #'' @ showNat (j + 1) @ '' does not match corresponding FOR statement'') loc)"
proof -
  have len: "length cs \<le> length (openForStmtStates st)"
    using k by (simp add: numForStmtStatesToClose_def split: if_splits)
  have "list_all (\<lambda>f. generates env (counterExpr (forStmt f)))
      (take (length cs) (openForStmtStates st))"
    using gf by (cases "cs = []") (simp_all add: numForStmtStatesToClose_def)
  from verifyCounters_mismatch [OF len gc this m, of loc 0]
  obtain j where "j < length cs"
    "verifyCounters env loc 0 cs (openForStmtStates st)
      = Some (CodegenError
         (''Counter #'' @ showNat (j + 1) @ '' does not match corresponding FOR statement'') loc)"
    by auto
  then show ?thesis
    using k by (intro exI [of _ j]) (simp add: visitNextStmt_def)
qed

lemma generateModule_unclosed:
  assumes "acceptAllStmts env (initialCodegenState\<lparr>indent := 2\<rparr>) (moduleStmts m) = Inr (code, st')"
    and "openForStmtStates st' \<noteq> []"
  shows "generateModule env m
     = Inl (CodegenError ''FOR statement without corresponding NEXT statement''
              (forLoc (forStmt (hd (openForStmtStates st')))))"
  using assms
  by (simp add: generateModule_def visitModule_def lines_def initialCodegenState_def
      visitStmts_def checkForStmtsClosed_def)

lemma visitFnProc_unclosed:
  assumes "0 \<le> indent st"
    and "acceptAllStmts env (st\<lparr>indent := indent st + 2\<rparr>) (fnProcStmts p) = Inr (code, st')"
    and "length (openForStmtStates st') > length (openForStmtStates st)"
  shows "visitFnProc env st p
     = Inl (CodegenError ''FOR statement without corresponding NEXT statement''
              (forLoc (forStmt (hd (openForStmtStates st')))))"
proof -
  have eq: "2 + indent st = indent st + 2" by simp
  show ?thesis
    using assms
    by (simp add: visitFnProc_def lines_def visitStmts_def checkForStmtsClosed_def
        mult_less_0_iff generateLoc_nonempty eq)
qed

text \<open>
  C5 (amended). A NEXT statement that names k counters (k = 1 for a bare NEXT), with
  at least k FOR frames open, the counter expressions generating and each named
  counter's text equal to that of the corresponding FOR's counter, closes the k
  innermost frames, innermost first: for each it emits the counter increment with the
  jump to the loop start, the label of the loop end, and the statement that deletes the
  step and end temporaries, and it leaves the other frames open (the indentation level
  being at least k). A named counter whose text differs from the corresponding FOR's
  counter raises a CodegenError, and so does a NEXT with fewer than k frames open. A
  statement list on whose exhaustion more FOR frames are open than when it was entered
  raises a CodegenError; in particular any FOR left open at the end of the module's
  statements, or of a procedure's statements beyond those open when the procedure was
  entered.
\<close>

theorem next_closes_for_frames:
  "(numForStmtStatesToClose cs \<le> length (openForStmtStates st)
      \<and> list_all (generates env) cs
      \<and> list_all (\<lambda>f. generates env (counterExpr (forStmt f)))
          (take (numForStmtStatesToClose cs) (openForStmtStates st)) \<longrightarrow>
      (countersMatch env cs (openForStmtStates st)
         \<and> int (numForStmtStatesToClose cs) \<le> indent st \<longrightarrow>
         visitNextStmt env st loc cs
           = Inr (closeTexts env (indent st) loc
                    (take (numForStmtStatesToClose cs) (openForStmtStates st)),
                  st\<lparr>openForStmtStates :=
                        drop (numForStmtStatesToClose cs) (openForStmtStates st),
                      indent := indent st - int (numForStmtStatesToClose cs)\<rparr>))
      \<and> (\<not> countersMatch env cs (openForStmtStates st) \<longrightarrow>
           (\<exists>j < length cs. visitNextStmt env st loc cs
              = Inl (CodegenError
                  (''Counter #'' @ showNat (j + 1)
                   @ '' does not match corresponding FOR statement'') loc))))
   \<and> (numForStmtStatesToClose cs > length (openForStmtStates st) \<longrightarrow>
        visitNextStmt env st loc cs
          = Inl (CodegenError ''NEXT statement without corresponding FOR statement'' loc))
   \<and> (\<forall>code st'. acceptAllStmts env st stmts = Inr (code, st') \<longrightarrow>
        visitStmts env st stmts
          = (if length (openForStmtStates st') > length (openForStmtStates st)
             then Inl (CodegenError ''FOR statement without corresponding NEXT statement''
                         (forLoc (forStmt (hd (openForStmtStates st')))))
             else Inr (code, st')))
   \<and> (\<forall>code st'.
         acceptAllStmts env (initialCodegenState\<lparr>indent := 2\<rparr>) (moduleStmts m) = Inr (code, st')
         \<and> openForStmtStates st' \<noteq> [] \<longrightarrow>
        generateModule env m
          = Inl (CodegenError ''FOR statement without corresponding NEXT statement''
                   (forLoc (forStmt (hd (openForStmtStates st'))))))
   \<and> (\<forall>code st'.
         0 \<le> indent st
         \<and> acceptAllStmts env (st\<lparr>indent := indent st + 2\<rparr>) (fnProcStmts p) = Inr (code, st')
         \<and> length (openForStmtStates st') > length (openForStmtStates st) \<longrightarrow>
        visitFnProc env st p
          = Inl (CodegenError ''FOR statement without corresponding NEXT statement''
                   (forLoc (forStmt (hd (openForStmtStates st'))))))"
proof -
  have a: "numForStmtStatesToClose cs > length (openForStmtStates st) \<longrightarrow>
        visitNextStmt env st loc cs
          = Inl (CodegenError ''NEXT statement without corresponding FOR statement'' loc)"
    by (simp add: visitNextStmt_def)
  have b: "\<forall>code st'. acceptAllStmts env st stmts = Inr (code, st') \<longrightarrow>
        visitStmts env st stmts
          = (if length (openForStmtStates st') > length (openForStmtStates st)
             then Inl (CodegenError ''FOR statement without corresponding NEXT statement''
                         (forLoc (forStmt (hd (openForStmtStates st')))))
             else Inr (code, st'))"
    by (simp add: visitStmts_def checkForStmtsClosed_def)
  show ?thesis
    using a b visitNextStmt_closes [of cs st env loc] visitNextStmt_mismatch [of cs st env loc]
      generateModule_unclosed [of env m] visitFnProc_unclosed [of st env p]
    by blast
qed

theorem next_closes_for_frames_witness:
  "numForStmtStatesToClose [exampleVar ''j'' 4, exampleVar ''i'' 4] = 2
   \<and> countersMatch exampleEnv [exampleVar ''j'' 4, exampleVar ''i'' 4]
        [exampleFrame ''j'' 2 2, exampleFrame ''i'' 1 1]
   \<and> visitNextStmt exampleEnv
        \<lparr>openForStmtStates = [exampleFrame ''j'' 2 2, exampleFrame ''i'' 1 1],
          openLoopStmtStates = [], indent = 4, nextGeneratedLabelIdx = 3\<rparr>
        (Loc 4 1) [exampleVar ''j'' 4, exampleVar ''i'' 4]
      = Inr (closeTexts exampleEnv 4 (Loc 4 1) [exampleFrame ''j'' 2 2, exampleFrame ''i'' 1 1],
             \<lparr>openForStmtStates = [], openLoopStmtStates = [], indent = 2,
               nextGeneratedLabelIdx = 3\<rparr>)
   \<and> \<not> countersMatch exampleEnv [exampleVar ''i'' 4] [exampleFrame ''j'' 2 2]
   \<and> visitNextStmt exampleEnv
        \<lparr>openForStmtStates = [exampleFrame ''j'' 2 2],
          openLoopStmtStates = [], indent = 3, nextGeneratedLabelIdx = 3\<rparr>
        (Loc 4 1) [exampleVar ''i'' 4]
      = Inl (CodegenError ''Counter #1 does not match corresponding FOR statement'' (Loc 4 1))"
proof -
  let ?cs = "[exampleVar ''j'' 4, exampleVar ''i'' 4]"
  let ?st = "\<lparr>openForStmtStates = [exampleFrame ''j'' 2 2, exampleFrame ''i'' 1 1],
          openLoopStmtStates = [], indent = 4, nextGeneratedLabelIdx = 3 :: nat\<rparr>"
  let ?st2 = "\<lparr>openForStmtStates = [exampleFrame ''j'' 2 2],
          openLoopStmtStates = [], indent = 3, nextGeneratedLabelIdx = 3 :: nat\<rparr>"
  have k: "numForStmtStatesToClose ?cs = 2" by (simp add: numForStmtStatesToClose_def)
  have gc: "list_all (generates exampleEnv) ?cs" by code_simp
  have gf: "list_all (\<lambda>f. generates exampleEnv (counterExpr (forStmt f)))
      [exampleFrame ''j'' 2 2, exampleFrame ''i'' 1 1]" by code_simp
  have cm: "countersMatch exampleEnv ?cs [exampleFrame ''j'' 2 2, exampleFrame ''i'' 1 1]"
    by code_simp
  have ncm: "\<not> countersMatch exampleEnv [exampleVar ''i'' 4] [exampleFrame ''j'' 2 2]"
    by code_simp
  have bad: "visitNextStmt exampleEnv ?st2 (Loc 4 1) [exampleVar ''i'' 4]
      = Inl (CodegenError ''Counter #1 does not match corresponding FOR statement'' (Loc 4 1))"
    by code_simp
  have "visitNextStmt exampleEnv ?st (Loc 4 1) ?cs
      = Inr (closeTexts exampleEnv 4 (Loc 4 1) [exampleFrame ''j'' 2 2, exampleFrame ''i'' 1 1],
             \<lparr>openForStmtStates = [], openLoopStmtStates = [], indent = 2,
               nextGeneratedLabelIdx = 3\<rparr>)"
    using next_closes_for_frames [of ?cs ?st exampleEnv "Loc 4 1",
        THEN conjunct1, THEN mp, THEN conjunct1, THEN mp] k gc gf cm
    by simp
  then show ?thesis using k cm ncm bad by simp
qed

text \<open>
  C5 as stated fails for a FOR left open at the end of a nested statement list that
  has closed an outer FOR before: in
  \<open>FOR i = 1 TO 3 / IF i THEN NEXT i : FOR j = 1 TO 3 / NEXT j\<close> the branch of the IF
  is exhausted with \<open>FOR j\<close> open (one frame open on entry, one on exit), no error is
  raised there, and the program is generated.
\<close>

theorem for_open_at_branch_end_counterexample:
  "(case visitStmts exampleEnv
           \<lparr>openForStmtStates = [exampleFrame ''i'' 1 1], openLoopStmtStates = [],
             indent = 4, nextGeneratedLabelIdx = 3\<rparr>
           [NextStmt (Loc 2 11) [exampleVar ''i'' 2], ForStmt (exampleForNode ''j'' 2)] of
      Inl err \<Rightarrow> None
    | Inr (code, st) \<Rightarrow> Some (map forStmt (openForStmtStates st)))
     = Some [exampleForNode ''j'' 2]
   \<and> (case generateModule exampleEnv
            \<lparr>moduleStmts =
               [ForStmt (exampleForNode ''i'' 1),
                IfStmt (Loc 2 1)
                  [(exampleVar ''i'' 2,
                    [NextStmt (Loc 2 11) [exampleVar ''i'' 2], ForStmt (exampleForNode ''j'' 2)])]
                  [],
                NextStmt (Loc 3 1) [exampleVar ''j'' 3]],
              moduleProcs = []\<rparr> of
         Inl err \<Rightarrow> False
       | Inr code \<Rightarrow> True)"
  by code_simp

lemma acceptExprWith_source: "acceptExprWith unaryOpText env e = acceptExpr env e"
  by (induction env e rule: acceptExpr.induct) (simp_all split: sum.splits option.splits)



end
